theory Spec2Isabelle
  imports Complex_Main "HOL-Library.Char_ord" "HOL-Library.List_Lexorder"
begin

section \<open>Data model\<close>

text \<open>
  Ids are kept in their string rendering (\<open>ID = string | number\<close> in the source, and
  \<open>toString\<close> is applied wherever an id enters an index record). Language and currency
  codes are the enum's string values. \<open>deletedAt\<close> is a timestamp, prices are integers,
  and \<open>take\<close> and \<open>skip\<close> are row counts.
\<close>

type_synonym ID = string
type_synonym LanguageCode = string
type_synonym CurrencyCode = string

text \<open>A facet value, loaded with its \<open>facet\<close> relation (only the ids are read).\<close>

record FacetValue =
  fv_id :: ID
  fv_facet_id :: ID

record Asset =
  preview :: string

text \<open>
  Catalog entities as they are loaded with \<open>variantRelations\<close>. The type parameter is the
  type of the localized text fields: a translatable entity has one text per language, a
  translated one has plain strings.
\<close>

record 'txt Product =
  p_id :: ID
  p_deletedAt :: "nat option"
  p_slug :: 'txt
  p_name :: 'txt
  p_description :: 'txt
  p_featuredAsset :: "Asset option"
  p_facetValues :: "FacetValue list"

record 'txt ProductVariant =
  v_id :: ID
  v_sku :: string
  v_price :: int
  v_name :: 'txt
  v_featuredAsset :: "Asset option"
  v_facetValues :: "FacetValue list"
  v_product :: "'txt Product"

type_synonym Translatable = "LanguageCode \<Rightarrow> string"

record SearchIndexItem =
  sku :: string
  slug :: string
  price :: int
  languageCode :: LanguageCode
  productVariantId :: ID
  productId :: ID
  productName :: string
  description :: string
  productVariantName :: string
  productPreview :: string
  productVariantPreview :: string
  facetIds :: "string list"
  facetValueIds :: "string list"

record RequestContext =
  ctx_languageCode :: LanguageCode
  ctx_currencyCode :: CurrencyCode

datatype SortOrder = ASC | DESC

record SearchResultSortParameter =
  sort_name :: "SortOrder option"
  sort_price :: "SortOrder option"

record SearchInput =
  in_term :: "string option"
  in_facetIds :: "ID list option"
  in_take :: "nat option"
  in_skip :: "nat option"
  in_sort :: "SearchResultSortParameter option"
  in_groupByProduct :: "bool option"

section \<open>Shared helpers\<close>

text \<open>
  Modelled from the spec: \<open>unique\<close> (shared/unique.ts is not part of the sources). The
  spec asks for the duplicate-free union; the list keeps the first occurrence of every
  element, in order.
\<close>

fun unique :: "'a list \<Rightarrow> 'a list" where
  "unique [] = []"
| "unique (x # xs) = x # unique (filter (\<lambda>y. y \<noteq> x) xs)"

text \<open>
  Modelled from the spec: \<open>translateDeep\<close> (service/helpers/utils/translate-entity.ts is
  not part of the sources). "Updated variants are translated into the request's language":
  the localized fields of the variant and of its \<open>product\<close> relation are resolved for the
  language, every other field is kept as loaded.
\<close>

definition translateProduct :: "Translatable Product \<Rightarrow> LanguageCode \<Rightarrow> string Product" where
  "translateProduct p lang =
     \<lparr> p_id = p_id p, p_deletedAt = p_deletedAt p, p_slug = p_slug p lang,
       p_name = p_name p lang, p_description = p_description p lang,
       p_featuredAsset = p_featuredAsset p, p_facetValues = p_facetValues p \<rparr>"

definition translateDeep :: "Translatable ProductVariant \<Rightarrow> LanguageCode \<Rightarrow> string ProductVariant" where
  "translateDeep v lang =
     \<lparr> v_id = v_id v, v_sku = v_sku v, v_price = v_price v, v_name = v_name v lang,
       v_featuredAsset = v_featuredAsset v, v_facetValues = v_facetValues v,
       v_product = translateProduct (v_product v) lang \<rparr>"

section \<open>The Index Store\<close>

text \<open>
  The table of index records, in row order, with primary key
  \<open>(productVariantId, languageCode)\<close>, and the repository calls the service makes on it:
  \<open>save\<close> (insert, or replace the row with the same key), \<open>delete\<close> by a language
  condition, \<open>delete\<close> by a list of composite keys, and \<open>count\<close> by language.
\<close>

definition itemKey :: "SearchIndexItem \<Rightarrow> ID \<times> LanguageCode" where
  "itemKey r = (productVariantId r, languageCode r)"

definition upsert :: "SearchIndexItem \<Rightarrow> SearchIndexItem list \<Rightarrow> SearchIndexItem list" where
  "upsert r rows =
     (if itemKey r \<in> itemKey ` set rows
      then map (\<lambda>x. if itemKey x = itemKey r then r else x) rows
      else rows @ [r])"

definition repo_save :: "SearchIndexItem list \<Rightarrow> SearchIndexItem list \<Rightarrow> SearchIndexItem list" where
  "repo_save items rows = fold upsert items rows"

definition repo_delete_language :: "LanguageCode \<Rightarrow> SearchIndexItem list \<Rightarrow> SearchIndexItem list" where
  "repo_delete_language lang rows = filter (\<lambda>r. languageCode r \<noteq> lang) rows"

definition repo_delete_keys ::
  "(ID \<times> LanguageCode) list \<Rightarrow> SearchIndexItem list \<Rightarrow> SearchIndexItem list" where
  "repo_delete_keys ks rows = filter (\<lambda>r. itemKey r \<notin> set ks) rows"

definition repo_count :: "LanguageCode \<Rightarrow> SearchIndexItem list \<Rightarrow> nat" where
  "repo_count lang rows = length (filter (\<lambda>r. languageCode r = lang) rows)"

section \<open>The service state\<close>

text \<open>
  The database behind the connection: the catalog tables (every variant row carries its
  parent product, as the \<open>product\<close> relation loads it) and the index table. \<open>effects\<close>
  records, in order, each reindex run and each write issued to the Index Store.
\<close>

datatype Effect =
    ReindexRun LanguageCode
  | StoreDeleteLanguage LanguageCode
  | StoreSave "SearchIndexItem list"
  | StoreDeleteKeys "(ID \<times> LanguageCode) list"

record Db =
  products :: "Translatable Product list"
  variants :: "Translatable ProductVariant list"
  index :: "SearchIndexItem list"
  effects :: "Effect list"

text \<open>
  The entity of a notification that \<open>update\<close> accepts (\<open>Product | ProductVariant\<close>);
  only its id is read.
\<close>

datatype Entity = ProductEntity ID | ProductVariantEntity ID

definition findProduct :: "Db \<Rightarrow> ID \<Rightarrow> Translatable Product option" where
  "findProduct db pid = find (\<lambda>p. p_id p = pid) (products db)"

definition findVariant :: "Db \<Rightarrow> ID \<Rightarrow> Translatable ProductVariant option" where
  "findVariant db vid = find (\<lambda>v. v_id v = vid) (variants db)"

text \<open>The \<open>variants\<close> relation of a product: the variant rows that point to it.\<close>

definition productVariants :: "Db \<Rightarrow> Translatable Product \<Rightarrow> Translatable ProductVariant list" where
  "productVariants db p = filter (\<lambda>v. p_id (v_product v) = p_id p) (variants db)"

definition findByIds :: "Db \<Rightarrow> ID list \<Rightarrow> Translatable ProductVariant list" where
  "findByIds db ids = filter (\<lambda>v. v_id v \<in> set ids) (variants db)"

section \<open>FulltextSearchService: the Index Synchronizer\<close>

definition getFacetIds :: "'txt ProductVariant \<Rightarrow> string list" where
  "getFacetIds variant =
     (let variantFacetIds = map fv_facet_id (v_facetValues variant);
          productFacetIds = map fv_facet_id (p_facetValues (v_product variant))
      in unique (variantFacetIds @ productFacetIds))"

definition getFacetValueIds :: "'txt ProductVariant \<Rightarrow> string list" where
  "getFacetValueIds variant =
     (let variantFacetValueIds = map fv_id (v_facetValues variant);
          productFacetValueIds = map fv_id (p_facetValues (v_product variant))
      in unique (variantFacetValueIds @ productFacetValueIds))"

text \<open>The record built for one variant inside \<open>saveSearchIndexItems\<close>.\<close>

definition toSearchIndexItem :: "LanguageCode \<Rightarrow> Translatable ProductVariant \<Rightarrow> SearchIndexItem" where
  "toSearchIndexItem lang variant =
     (let v = translateDeep variant lang in
      \<lparr> sku = v_sku v,
        slug = p_slug (v_product v),
        price = v_price v,
        languageCode = lang,
        productVariantId = v_id v,
        productId = p_id (v_product v),
        productName = p_name (v_product v),
        description = p_description (v_product v),
        productVariantName = v_name v,
        productPreview = (case p_featuredAsset (v_product v) of Some a \<Rightarrow> preview a | None \<Rightarrow> ''''),
        productVariantPreview = (case v_featuredAsset v of Some a \<Rightarrow> preview a | None \<Rightarrow> ''''),
        facetIds = getFacetIds v,
        facetValueIds = getFacetValueIds v \<rparr>)"

definition saveSearchIndexItems :: "LanguageCode \<Rightarrow> Translatable ProductVariant list \<Rightarrow> Db \<Rightarrow> Db" where
  "saveSearchIndexItems lang vs db =
     (let items = map (toSearchIndexItem lang) vs
      in db\<lparr> index := repo_save items (index db),
             effects := effects db @ [StoreSave items] \<rparr>)"

definition removeSearchIndexItems :: "LanguageCode \<Rightarrow> ID list \<Rightarrow> Db \<Rightarrow> Db" where
  "removeSearchIndexItems lang variantIds db =
     (let compositeKeys = map (\<lambda>i. (i, lang)) variantIds
      in db\<lparr> index := repo_delete_keys compositeKeys (index db),
             effects := effects db @ [StoreDeleteKeys compositeKeys] \<rparr>)"

text \<open>
  The report of \<open>reindex\<close>; \<open>timeTaken\<close> is a difference of two wall-clock readings and
  is left out.
\<close>

record DefaultSearchReindexResponse =
  success :: bool
  indexedItemCount :: nat

definition reindex :: "LanguageCode \<Rightarrow> Db \<Rightarrow> DefaultSearchReindexResponse \<times> Db" where
  "reindex lang db =
     (let vs = filter (\<lambda>v. p_deletedAt (v_product v) = None) (variants db);
          db1 = db\<lparr> effects := effects db @ [ReindexRun lang] \<rparr>;
          db2 = db1\<lparr> index := repo_delete_language lang (index db1),
                     effects := effects db1 @ [StoreDeleteLanguage lang] \<rparr>;
          db3 = saveSearchIndexItems lang vs db2
      in (\<lparr> success = True, indexedItemCount = length vs \<rparr>, db3))"

text \<open>
  The two lists \<open>update\<close> computes from the mutated entity: the variants to write and the
  variant ids to remove.
\<close>

definition affectedVariants ::
  "Db \<Rightarrow> Entity \<Rightarrow> Translatable ProductVariant list \<times> ID list" where
  "affectedVariants db updatedEntity =
     (case updatedEntity of
        ProductEntity pid \<Rightarrow>
          (case findProduct db pid of
             Some product \<Rightarrow>
               (if p_deletedAt product \<noteq> None
                then ([], map v_id (productVariants db product))
                else (findByIds db (map v_id (productVariants db product)), []))
           | None \<Rightarrow> ([], []))
      | ProductVariantEntity vid \<Rightarrow>
          (case findVariant db vid of
             Some variant \<Rightarrow> ([variant], [])
           | None \<Rightarrow> ([], [])))"

definition update :: "RequestContext \<Rightarrow> Entity \<Rightarrow> Db \<Rightarrow> Db" where
  "update ctx updatedEntity db =
     (let (updatedVariants, removedVariantIds) = affectedVariants db updatedEntity;
          db1 = (if updatedVariants \<noteq> []
                 then saveSearchIndexItems (ctx_languageCode ctx) updatedVariants db else db);
          db2 = (if removedVariantIds \<noteq> []
                 then removeSearchIndexItems (ctx_languageCode ctx) removedVariantIds db1 else db1)
      in db2)"

definition checkIndex :: "LanguageCode \<Rightarrow> Db \<Rightarrow> Db" where
  "checkIndex lang db =
     (let indexSize = repo_count lang (index db)
      in if indexSize = 0 then snd (reindex lang db) else db)"

section \<open>FulltextSearchService: construction\<close>

text \<open>
  What the service throws: the constructor's \<open>InternalServerError\<close>, and the two errors
  a query can end in when it is run, a \<open>SyntaxError\<close> raised while the statement is
  prepared and a \<open>QueryFailedError\<close> raised by the store.
\<close>

datatype error =
    InternalServerError string
  | SyntaxError string
  | QueryFailedError string

datatype SearchStrategy = MysqlSearchStrategy | SqliteSearchStrategy | PostgresSearchStrategy

text \<open>The \<open>switch\<close> of the constructor over \<open>connection.options.type\<close>.\<close>

definition selectSearchStrategy :: "string \<Rightarrow> error + SearchStrategy" where
  "selectSearchStrategy dbType =
     (if dbType = ''mysql'' \<or> dbType = ''mariadb'' then Inr MysqlSearchStrategy
      else if dbType = ''sqlite'' \<or> dbType = ''sqljs'' then Inr SqliteSearchStrategy
      else if dbType = ''postgres'' then Inr PostgresSearchStrategy
      else Inl (InternalServerError ''error.database-not-supported-by-default-search-plugin''))"

text \<open>
  The event-bus subscription made by the constructor; the entity of an event is \<open>None\<close>
  when it is neither a product nor a product variant.
\<close>

definition onCatalogModification :: "RequestContext \<Rightarrow> Entity option \<Rightarrow> Db \<Rightarrow> Db" where
  "onCatalogModification ctx entity db =
     (case entity of Some e \<Rightarrow> update ctx e db | None \<Rightarrow> db)"

section \<open>MysqlSearchStrategy\<close>

text \<open>
  What the strategy relies on outside the repository is a parameter of it:
  \<open>sqlLike E s pat\<close> is \<open>s LIKE pat\<close>; \<open>matchAgainst E col t\<close> is the relevance that
  \<open>MATCH (col) AGAINST (t)\<close> returns, exact where the store computes in floating point
  (in a condition the relevance counts as true when it is not zero); and
  \<open>escapeQuery E ps\<close> is what the driver makes of the named parameters \<open>ps\<close> when one of
  the names is not made of letters, digits and underscores only: an error, or the value
  it puts in the place of every placeholder.
\<close>

type_synonym Bindings = "string \<Rightarrow> string"

record Engine =
  sqlLike :: "string \<Rightarrow> string \<Rightarrow> bool"
  matchAgainst :: "string \<Rightarrow> string \<Rightarrow> rat"
  escapeQuery :: "(string \<times> string) list \<Rightarrow> error + Bindings"

text \<open>
  A query on the index table, as the calls on the query builder leave it: the added
  select expressions with their aliases, the conditions joined by AND, the named
  parameters in the order they were set, the grouping by \<open>productId\<close>, the ORDER BY keys
  in order, and the page. Expressions and conditions refer to the parameters by name,
  so they are read under the values bound to the placeholders.
\<close>

record QueryBuilder =
  qb_selects :: "(string \<times> (Bindings \<Rightarrow> SearchIndexItem \<Rightarrow> rat)) list"
  qb_wheres :: "(Bindings \<Rightarrow> SearchIndexItem \<Rightarrow> bool) list"
  qb_parameters :: "(string \<times> string) list"
  qb_groupByProductId :: bool
  qb_orderBys :: "(string \<times> SortOrder) list"
  qb_take :: "nat option"
  qb_skip :: "nat option"

definition createQueryBuilder :: QueryBuilder where
  "createQueryBuilder =
     \<lparr> qb_selects = [], qb_wheres = [], qb_parameters = [], qb_groupByProductId = False,
       qb_orderBys = [], qb_take = None, qb_skip = None \<rparr>"

definition setParameters :: "(string \<times> string) list \<Rightarrow> QueryBuilder \<Rightarrow> QueryBuilder" where
  "setParameters ps qb = qb\<lparr> qb_parameters := qb_parameters qb @ ps \<rparr>"

definition whereCond :: "(Bindings \<Rightarrow> SearchIndexItem \<Rightarrow> bool) \<Rightarrow> QueryBuilder \<Rightarrow> QueryBuilder" where
  "whereCond c qb = qb\<lparr> qb_wheres := [c] \<rparr>"

definition andWhere ::
  "(Bindings \<Rightarrow> SearchIndexItem \<Rightarrow> bool) \<Rightarrow> (string \<times> string) list \<Rightarrow> QueryBuilder
     \<Rightarrow> QueryBuilder" where
  "andWhere c ps qb = setParameters ps (qb\<lparr> qb_wheres := qb_wheres qb @ [c] \<rparr>)"

definition addSelect ::
  "(Bindings \<Rightarrow> SearchIndexItem \<Rightarrow> rat) \<Rightarrow> string \<Rightarrow> QueryBuilder \<Rightarrow> QueryBuilder" where
  "addSelect e alias qb = qb\<lparr> qb_selects := qb_selects qb @ [(alias, e)] \<rparr>"

definition groupByProduct :: "QueryBuilder \<Rightarrow> QueryBuilder" where
  "groupByProduct qb = qb\<lparr> qb_groupByProductId := True \<rparr>"

definition orderBy :: "string \<Rightarrow> SortOrder \<Rightarrow> QueryBuilder \<Rightarrow> QueryBuilder" where
  "orderBy col dir qb = qb\<lparr> qb_orderBys := [(col, dir)] \<rparr>"

definition addOrderBy :: "string \<Rightarrow> SortOrder \<Rightarrow> QueryBuilder \<Rightarrow> QueryBuilder" where
  "addOrderBy col dir qb = qb\<lparr> qb_orderBys := qb_orderBys qb @ [(col, dir)] \<rparr>"

definition takeRows :: "nat \<Rightarrow> QueryBuilder \<Rightarrow> QueryBuilder" where
  "takeRows n qb = qb\<lparr> qb_take := Some n \<rparr>"

definition skipRows :: "nat \<Rightarrow> QueryBuilder \<Rightarrow> QueryBuilder" where
  "skipRows n qb = qb\<lparr> qb_skip := Some n \<rparr>"

definition minTermLength :: nat where
  "minTermLength = 2"

text \<open>
  The SQL expressions of \<open>applyTermAndFilters\<close>, as functions of the values that stand
  for \<open>:term\<close> and \<open>:like_term\<close>.
\<close>

definition likeTerm :: "string \<Rightarrow> string" where
  "likeTerm t = ''%'' @ t @ ''%''"

definition skuScoreExpr :: "Engine \<Rightarrow> string \<Rightarrow> SearchIndexItem \<Rightarrow> rat" where
  "skuScoreExpr E like_term r = (if sqlLike E (sku r) like_term then 10 else 0)"

definition scoreExpr :: "Engine \<Rightarrow> string \<Rightarrow> string \<Rightarrow> SearchIndexItem \<Rightarrow> rat" where
  "scoreExpr E t like_term r =
     skuScoreExpr E like_term r
     + matchAgainst E (productName r) t * 2
     + matchAgainst E (productVariantName r) t * (3 / 2)
     + matchAgainst E (description r) t * 1"

definition termCond :: "Engine \<Rightarrow> string \<Rightarrow> string \<Rightarrow> SearchIndexItem \<Rightarrow> bool" where
  "termCond E t like_term r =
     (sqlLike E (sku r) like_term
      \<or> matchAgainst E (productName r) t \<noteq> 0
      \<or> matchAgainst E (productVariantName r) t \<noteq> 0
      \<or> matchAgainst E (description r) t \<noteq> 0)"

text \<open>
  \<open>FIND_IN_SET(:placeholder, facetValueIds)\<close> on the stored id list, for the value that
  stands for the placeholder.
\<close>

definition findInSet :: "string \<Rightarrow> Bindings \<Rightarrow> SearchIndexItem \<Rightarrow> bool" where
  "findInSet placeholder b r = (b placeholder \<in> set (facetValueIds r))"

definition applyTermAndFilters :: "Engine \<Rightarrow> QueryBuilder \<Rightarrow> SearchInput \<Rightarrow> QueryBuilder" where
  "applyTermAndFilters E qb input =
     (let qb1 = whereCond (\<lambda>b r. True) qb;
          qb2 = (case in_term input of
                   Some t \<Rightarrow>
                     (if t \<noteq> [] \<and> length t > minTermLength
                      then setParameters [(''term'', t), (''like_term'', likeTerm t)]
                             (andWhere (\<lambda>b. termCond E (b ''term'') (b ''like_term'')) []
                               (addSelect (\<lambda>b. scoreExpr E (b ''term'') (b ''like_term'')) ''score''
                                 (addSelect (\<lambda>b. skuScoreExpr E (b ''like_term'')) ''sku_score''
                                    qb1)))
                      else qb1)
                 | None \<Rightarrow> qb1);
          qb3 = (case in_facetIds input of
                   Some ids \<Rightarrow>
                     fold (\<lambda>i q. let placeholder = ''_'' @ i
                                  in andWhere (findInSet placeholder) [(placeholder, i)] q)
                       ids qb2
                 | None \<Rightarrow> qb2);
          qb4 = (if in_groupByProduct input = Some True then groupByProduct qb3 else qb3)
      in qb4)"

subsection \<open>Running a query\<close>

text \<open>
  Before a query is sent, the driver puts the parameter values in the place of the
  placeholders, which it finds by a regular expression built from the parameter names.
  A name made of letters, digits and underscores is found as it is written, and the
  placeholder gets the value set last under that name. With any other name in the list
  the outcome is the engine's.
\<close>

definition wordChar :: "char \<Rightarrow> bool" where
  "wordChar c =
     (c \<in> set ''abcdefghijklmnopqrstuvwxyzABCDEFGHIJKLMNOPQRSTUVWXYZ0123456789_'')"

definition plainName :: "string \<Rightarrow> bool" where
  "plainName n = list_all wordChar n"

definition paramValue :: "(string \<times> string) list \<Rightarrow> Bindings" where
  "paramValue ps n = (case map_of (rev ps) n of Some v \<Rightarrow> v | None \<Rightarrow> [])"

definition bindParameters :: "Engine \<Rightarrow> (string \<times> string) list \<Rightarrow> error + Bindings" where
  "bindParameters E ps =
     (if list_all (\<lambda>p. plainName (fst p)) ps then Inr (paramValue ps) else escapeQuery E ps)"

record RawRow =
  raw_si :: SearchIndexItem
  raw_extra :: "(string \<times> rat) list"

definition rawScore :: "RawRow \<Rightarrow> rat" where
  "rawScore r = (case map_of (raw_extra r) ''score'' of Some s \<Rightarrow> s | None \<Rightarrow> 0)"

text \<open>The rows a grouping by \<open>productId\<close> keeps: the first row of every product.\<close>

fun groupRows :: "SearchIndexItem list \<Rightarrow> SearchIndexItem list" where
  "groupRows [] = []"
| "groupRows (r # rs) = r # groupRows (filter (\<lambda>x. productId x \<noteq> productId r) rs)"

definition matchingRows ::
  "Bindings \<Rightarrow> QueryBuilder \<Rightarrow> SearchIndexItem list \<Rightarrow> SearchIndexItem list" where
  "matchingRows b qb rows = filter (\<lambda>r. list_all (\<lambda>c. c b r) (qb_wheres qb)) rows"

definition selectedRows :: "Bindings \<Rightarrow> QueryBuilder \<Rightarrow> SearchIndexItem list \<Rightarrow> RawRow list" where
  "selectedRows b qb rows =
     map (\<lambda>r. \<lparr> raw_si = r, raw_extra = map (\<lambda>(alias, e). (alias, e b r)) (qb_selects qb) \<rparr>)
       (if qb_groupByProductId qb then groupRows (matchingRows b qb rows)
        else matchingRows b qb rows)"

text \<open>
  ORDER BY: \<open>keyBefore k a b\<close> says that row \<open>a\<close> comes strictly before \<open>b\<close> under one
  key, \<open>rowBefore\<close> combines the keys lexicographically, and \<open>orderRows\<close> is a stable
  insertion sort.
\<close>

definition keyBefore :: "string \<times> SortOrder \<Rightarrow> RawRow \<Rightarrow> RawRow \<Rightarrow> bool" where
  "keyBefore k a b =
     (let x = (if snd k = ASC then a else b); y = (if snd k = ASC then b else a)
      in if fst k = ''score'' then rawScore x < rawScore y
         else if fst k = ''productName'' then productName (raw_si x) < productName (raw_si y)
         else if fst k = ''price'' then price (raw_si x) < price (raw_si y)
         else False)"

fun rowBefore :: "(string \<times> SortOrder) list \<Rightarrow> RawRow \<Rightarrow> RawRow \<Rightarrow> bool" where
  "rowBefore [] a b = False"
| "rowBefore (k # ks) a b = (keyBefore k a b \<or> (\<not> keyBefore k b a \<and> rowBefore ks a b))"

fun insertRow :: "(string \<times> SortOrder) list \<Rightarrow> RawRow \<Rightarrow> RawRow list \<Rightarrow> RawRow list" where
  "insertRow ks x [] = [x]"
| "insertRow ks x (y # ys) = (if rowBefore ks y x then y # insertRow ks x ys else x # y # ys)"

definition orderRows :: "(string \<times> SortOrder) list \<Rightarrow> RawRow list \<Rightarrow> RawRow list" where
  "orderRows ks rows = foldr (insertRow ks) rows []"

definition getRawMany :: "Engine \<Rightarrow> QueryBuilder \<Rightarrow> SearchIndexItem list \<Rightarrow> error + RawRow list" where
  "getRawMany E qb rows =
     (case bindParameters E (qb_parameters qb) of
        Inl e \<Rightarrow> Inl e
      | Inr b \<Rightarrow>
          (let ordered = orderRows (qb_orderBys qb) (selectedRows b qb rows);
               skipped = (case qb_skip qb of Some n \<Rightarrow> drop n ordered | None \<Rightarrow> ordered)
           in Inr (case qb_take qb of Some n \<Rightarrow> take n skipped | None \<Rightarrow> skipped)))"

subsection \<open>The strategy's operations\<close>

record SearchResult =
  sr_item :: SearchIndexItem
  sr_currencyCode :: CurrencyCode
  sr_score :: "rat option"

text \<open>
  Modelled from the spec: \<open>mapToSearchResult\<close> (map-to-search-result.ts is not part of
  the sources). A result carries "the denormalized display fields and the computed rank
  score where a term was supplied", and "the raw stored price is reported in the result
  alongside the caller's channel currency code".
\<close>

definition mapToSearchResult :: "RawRow \<Rightarrow> CurrencyCode \<Rightarrow> SearchResult" where
  "mapToSearchResult r currencyCode =
     \<lparr> sr_item = raw_si r, sr_currencyCode = currencyCode,
       sr_score = map_of (raw_extra r) ''score'' \<rparr>"

text \<open>The query \<open>getSearchResults\<close> builds before it runs it.\<close>

definition searchResultsQuery :: "Engine \<Rightarrow> SearchInput \<Rightarrow> QueryBuilder" where
  "searchResultsQuery E input =
     (let take = (case in_take input of Some n \<Rightarrow> if n = 0 then 25 else n | None \<Rightarrow> 25);
          skip = (case in_skip input of Some n \<Rightarrow> if n = 0 then 0 else n | None \<Rightarrow> 0);
          sort = in_sort input;
          qb = applyTermAndFilters E createQueryBuilder input;
          qb1 = (case in_term input of
                   Some t \<Rightarrow> if t \<noteq> [] \<and> length t > minTermLength
                             then orderBy ''score'' DESC qb else qb
                 | None \<Rightarrow> qb);
          qb2 = (case sort of
                   Some s \<Rightarrow>
                     (let q = (case sort_name s of
                                 Some d \<Rightarrow> addOrderBy ''productName'' d qb1 | None \<Rightarrow> qb1)
                      in case sort_price s of
                           Some d \<Rightarrow> addOrderBy ''price'' d q | None \<Rightarrow> q)
                 | None \<Rightarrow> qb1)
      in skipRows skip (takeRows take qb2))"

definition getSearchResults ::
  "Engine \<Rightarrow> RequestContext \<Rightarrow> SearchInput \<Rightarrow> SearchIndexItem list
     \<Rightarrow> error + SearchResult list" where
  "getSearchResults E ctx input rows =
     (case getRawMany E (searchResultsQuery E input) rows of
        Inl e \<Rightarrow> Inl e
      | Inr res \<Rightarrow> Inr (map (\<lambda>r. mapToSearchResult r (ctx_currencyCode ctx)) res))"

text \<open>
  The count query wraps the inner query and takes over its parameters, so it is run
  under the same bindings.
\<close>

definition getTotalCount ::
  "Engine \<Rightarrow> RequestContext \<Rightarrow> SearchInput \<Rightarrow> SearchIndexItem list \<Rightarrow> error + nat" where
  "getTotalCount E ctx input rows =
     (let innerQb = applyTermAndFilters E createQueryBuilder input
      in case getRawMany E innerQb rows of
           Inl e \<Rightarrow> Inl e
         | Inr res \<Rightarrow> Inr (length res))"

subsection \<open>A concrete store for the examples\<close>

text \<open>
  A small engine to evaluate the strategy on: LIKE with the wildcards \<open>%\<close> and \<open>_\<close>,
  a fulltext relevance that counts the words of the column equal to the term, and a
  driver that cannot build its regular expression from a parameter name with unbalanced
  parentheses and binds every other parameter to its value.
\<close>

fun likeMatch :: "string \<Rightarrow> string \<Rightarrow> bool" where
  "likeMatch [] s = (s = [])"
| "likeMatch (p # ps) s =
     (if p = CHR ''%''
      then likeMatch ps s \<or> (case s of [] \<Rightarrow> False | c # t \<Rightarrow> likeMatch (p # ps) t)
      else (case s of [] \<Rightarrow> False | c # t \<Rightarrow> (p = CHR ''_'' \<or> p = c) \<and> likeMatch ps t))"

fun splitWords :: "string \<Rightarrow> string list" where
  "splitWords [] = [[]]"
| "splitWords (c # cs) =
     (if c = CHR '' '' then [] # splitWords cs
      else (case splitWords cs of w # ws \<Rightarrow> (c # w) # ws | [] \<Rightarrow> [[c]]))"

fun parensBalanced :: "nat \<Rightarrow> string \<Rightarrow> bool" where
  "parensBalanced d [] = (d = 0)"
| "parensBalanced d (c # cs) =
     (if c = CHR ''('' then parensBalanced (Suc d) cs
      else if c = CHR '')'' then (case d of 0 \<Rightarrow> False | Suc d' \<Rightarrow> parensBalanced d' cs)
      else parensBalanced d cs)"

definition wordEngine :: Engine where
  "wordEngine =
     \<lparr> sqlLike = (\<lambda>s pat. likeMatch pat s),
       matchAgainst = (\<lambda>col t. of_nat (count_list (splitWords col) t)),
       escapeQuery = (\<lambda>ps. if list_all (\<lambda>p. parensBalanced 0 (fst p)) ps
                            then Inr (paramValue ps)
                            else Inl (SyntaxError ''Invalid regular expression'')) \<rparr>"

definition exampleItem :: "ID \<Rightarrow> ID \<Rightarrow> string \<Rightarrow> string \<Rightarrow> string list \<Rightarrow> SearchIndexItem" where
  "exampleItem vid pid s n fvs =
     \<lparr> sku = s, slug = '''', price = 100, languageCode = ''en'', productVariantId = vid,
       productId = pid, productName = n, description = '''', productVariantName = n,
       productPreview = '''', productVariantPreview = '''', facetIds = [],
       facetValueIds = fvs \<rparr>"

section \<open>Notions used in the statements and proofs\<close>

text \<open>
  \<open>override items x\<close> is the row that stands in place of \<open>x\<close> once \<open>items\<close> have been
  saved over a table that already holds all their keys: the last item with the key of
  \<open>x\<close>, or \<open>x\<close> itself.

  \<open>unionLaw v r\<close> is the union law of the index record \<open>r\<close> for the variant \<open>v\<close>: both id
  lists are duplicate-free, and they hold exactly the ids attached to the variant or to
  its parent product.

  \<open>reindexRuns\<close> counts the reindex runs recorded so far.

  \<open>termRanks\<close> is the term when the strategy's test lets it rank, \<open>pageTake\<close> and
  \<open>pageSkip\<close> are the page \<open>getSearchResults\<close> asks for, and \<open>sortKeys\<close> is its ORDER
  BY list.

  \<open>queryParameters\<close> is the parameter list \<open>applyTermAndFilters\<close> sets, and
  \<open>plainFacetIds\<close> says that every facet id of the input is made of letters, digits
  and underscores, so that the placeholder named after it is found as written.

  \<open>containsTerm s t\<close> says that \<open>t\<close> occurs in \<open>s\<close> as a contiguous substring.

  The \<open>example\<close> constants are a small catalog, index and search input to evaluate the
  operations on.
\<close>

definition override :: "SearchIndexItem list \<Rightarrow> SearchIndexItem \<Rightarrow> SearchIndexItem" where
  "override items x = (case find (\<lambda>r. itemKey r = itemKey x) (rev items) of Some r \<Rightarrow> r | None \<Rightarrow> x)"

definition unionLaw :: "Translatable ProductVariant \<Rightarrow> SearchIndexItem \<Rightarrow> bool" where
  "unionLaw v r =
     (set (facetIds r) = fv_facet_id ` set (v_facetValues v) \<union> fv_facet_id ` set (p_facetValues (v_product v))
      \<and> distinct (facetIds r)
      \<and> set (facetValueIds r) = fv_id ` set (v_facetValues v) \<union> fv_id ` set (p_facetValues (v_product v))
      \<and> distinct (facetValueIds r))"

definition reindexRuns :: "Db \<Rightarrow> nat" where
  "reindexRuns db = length (filter (\<lambda>e. case e of ReindexRun l \<Rightarrow> True | _ \<Rightarrow> False) (effects db))"

definition exampleProduct :: "ID \<Rightarrow> nat option \<Rightarrow> Translatable Product" where
  "exampleProduct pid del =
     \<lparr> p_id = pid, p_deletedAt = del,
       p_slug = (\<lambda>l. if l = ''de'' then ''hemd'' else ''shirt''),
       p_name = (\<lambda>l. if l = ''de'' then ''Hemd'' else ''Shirt''),
       p_description = (\<lambda>l. ''''), p_featuredAsset = None,
       p_facetValues = [\<lparr> fv_id = ''red'', fv_facet_id = ''color'' \<rparr>] \<rparr>"

definition exampleVariant :: "ID \<Rightarrow> Translatable Product \<Rightarrow> FacetValue list \<Rightarrow> Translatable ProductVariant" where
  "exampleVariant vid p fvs =
     \<lparr> v_id = vid, v_sku = ''SKU'', v_price = 100,
       v_name = (\<lambda>l. if l = ''de'' then ''Hemd M'' else ''Shirt M''),
       v_featuredAsset = None, v_facetValues = fvs, v_product = p \<rparr>"

definition exampleDb :: "nat option \<Rightarrow> SearchIndexItem list \<Rightarrow> Db" where
  "exampleDb del idx =
     \<lparr> products = [exampleProduct ''p1'' del],
       variants = [exampleVariant ''v1'' (exampleProduct ''p1'' del)
                     [\<lparr> fv_id = ''red'', fv_facet_id = ''color'' \<rparr>,
                      \<lparr> fv_id = ''m'', fv_facet_id = ''size'' \<rparr>]],
       index = idx, effects = [] \<rparr>"

definition exampleCtx :: RequestContext where
  "exampleCtx = \<lparr> ctx_languageCode = ''en'', ctx_currencyCode = ''USD'' \<rparr>"

definition termRanks :: "SearchInput \<Rightarrow> string option" where
  "termRanks input =
     (case in_term input of
        Some t \<Rightarrow> if minTermLength < length t then Some t else None
      | None \<Rightarrow> None)"

definition pageTake :: "SearchInput \<Rightarrow> nat" where
  "pageTake input = (case in_take input of Some n \<Rightarrow> if n = 0 then 25 else n | None \<Rightarrow> 25)"

definition pageSkip :: "SearchInput \<Rightarrow> nat" where
  "pageSkip input = (case in_skip input of Some n \<Rightarrow> n | None \<Rightarrow> 0)"

definition sortKeys :: "SearchInput \<Rightarrow> (string \<times> SortOrder) list" where
  "sortKeys input =
     (case termRanks input of Some t \<Rightarrow> [(''score'', DESC)] | None \<Rightarrow> [])
     @ (case in_sort input of
          Some s \<Rightarrow>
            (case sort_name s of Some d \<Rightarrow> [(''productName'', d)] | None \<Rightarrow> [])
            @ (case sort_price s of Some d \<Rightarrow> [(''price'', d)] | None \<Rightarrow> [])
        | None \<Rightarrow> [])"

definition exampleInput :: "string option \<Rightarrow> SearchInput" where
  "exampleInput t =
     \<lparr> in_term = t, in_facetIds = None, in_take = None, in_skip = None, in_sort = None,
       in_groupByProduct = None \<rparr>"

definition exampleRows :: "SearchIndexItem list" where
  "exampleRows =
     [exampleItem ''v1'' ''p1'' ''RED-shirt-M'' ''red shirt'' [''A''],
      exampleItem ''v2'' ''p1'' ''BLU-SHIRT-M'' ''blue shirt'' [''B''],
      exampleItem ''v3'' ''p2'' ''H1'' ''hat'' [''A'', ''B'']]"

definition queryParameters :: "SearchInput \<Rightarrow> (string \<times> string) list" where
  "queryParameters input =
     (case termRanks input of
        Some t \<Rightarrow> [(''term'', t), (''like_term'', likeTerm t)]
      | None \<Rightarrow> [])
     @ (case in_facetIds input of
          Some ids \<Rightarrow> map (\<lambda>i. (''_'' @ i, i)) ids
        | None \<Rightarrow> [])"

definition plainFacetIds :: "SearchInput \<Rightarrow> bool" where
  "plainFacetIds input =
     (case in_facetIds input of Some ids \<Rightarrow> list_all plainName ids | None \<Rightarrow> True)"

fun containsTerm :: "string \<Rightarrow> string \<Rightarrow> bool" where
  "containsTerm [] t = (t = [])"
| "containsTerm (c # cs) t = (take (length t) (c # cs) = t \<or> containsTerm cs t)"

section \<open>Properties\<close>

lemma find_append_case:
  "find P (xs @ ys) = (case find P xs of Some x \<Rightarrow> Some x | None \<Rightarrow> find P ys)"
  by (induction xs) auto

lemma upsert_member: "x \<in> set (upsert r rows) \<Longrightarrow> x = r \<or> x \<in> set rows"
  by (auto simp: upsert_def split: if_splits)

lemma replace_keys:
  "map itemKey (map (\<lambda>x. if itemKey x = itemKey r then r else x) rows) = map itemKey rows"
  by (induction rows) auto

lemma replace_key_set:
  "itemKey ` set (map (\<lambda>x. if itemKey x = itemKey r then r else x) rows) = itemKey ` set rows"
proof -
  let ?f = "\<lambda>x. if itemKey x = itemKey r then r else x"
  have "itemKey ` set (map ?f rows) = set (map itemKey (map ?f rows))"
    by (simp only: set_map)
  also have "\<dots> = set (map itemKey rows)" by (simp only: replace_keys)
  also have "\<dots> = itemKey ` set rows" by (simp only: set_map)
  finally show ?thesis .
qed

lemma upsert_same_key: "x \<in> set (upsert r rows) \<Longrightarrow> itemKey x = itemKey r \<Longrightarrow> x = r"
proof (cases "itemKey r \<in> itemKey ` set rows")
  case True
  assume "x \<in> set (upsert r rows)" "itemKey x = itemKey r"
  with True show ?thesis by (auto simp: upsert_def split: if_splits)
next
  case False
  assume "x \<in> set (upsert r rows)" "itemKey x = itemKey r"
  with False have "x \<in> set rows \<or> x = r" by (auto simp: upsert_def)
  moreover have "x \<notin> set rows" using False \<open>itemKey x = itemKey r\<close> by (metis imageI)
  ultimately show ?thesis by simp
qed

lemma upsert_keys: "itemKey ` set (upsert r rows) = insert (itemKey r) (itemKey ` set rows)"
proof (cases "itemKey r \<in> itemKey ` set rows")
  case True
  then show ?thesis using replace_key_set [of r rows] by (auto simp: upsert_def)
next
  case False
  then show ?thesis by (simp add: upsert_def)
qed

lemma fold_upsert_member:
  "x \<in> set (fold upsert items rows) \<Longrightarrow> x \<in> set items \<or> x \<in> set rows"
proof (induction items arbitrary: rows)
  case Nil
  then show ?case by simp
next
  case (Cons r items)
  then have "x \<in> set items \<or> x \<in> set (upsert r rows)" by simp
  then show ?case using upsert_member by fastforce
qed

lemma fold_upsert_keys:
  "itemKey ` set (fold upsert items rows) = itemKey ` set items \<union> itemKey ` set rows"
proof (induction items arbitrary: rows)
  case Nil
  then show ?case by simp
next
  case (Cons r items)
  have "itemKey ` set (fold upsert (r # items) rows)
        = itemKey ` set items \<union> itemKey ` set (upsert r rows)"
    using Cons.IH by simp
  then show ?case by (simp add: upsert_keys)
qed

lemma fold_upsert_foreign_key:
  "x \<in> set (fold upsert items rows) \<Longrightarrow> itemKey x \<notin> itemKey ` set items \<Longrightarrow> x \<in> set rows"
proof (induction items arbitrary: rows)
  case Nil
  then show ?case by simp
next
  case (Cons r items)
  from Cons.prems have "x \<in> set (upsert r rows)"
    using Cons.IH [of "upsert r rows"] by simp
  moreover from Cons.prems have "x \<noteq> r" by auto
  ultimately show ?case using upsert_member by blast
qed

lemma override_Cons:
  "override (r # items) x =
     (case find (\<lambda>y. itemKey y = itemKey x) (rev items) of
        Some y \<Rightarrow> y | None \<Rightarrow> if itemKey r = itemKey x then r else x)"
  by (simp add: override_def find_append_case split: option.splits)

lemma fold_upsert_present:
  "itemKey ` set items \<subseteq> itemKey ` set rows \<Longrightarrow> fold upsert items rows = map (override items) rows"
proof (induction items arbitrary: rows)
  case Nil
  then show ?case by (simp add: override_def)
next
  case (Cons r items)
  let ?f = "\<lambda>x. if itemKey x = itemKey r then r else x"
  from Cons.prems have in_rows: "itemKey r \<in> itemKey ` set rows" by simp
  then have step: "upsert r rows = map ?f rows" by (simp add: upsert_def)
  have keys: "itemKey ` set (map ?f rows) = itemKey ` set rows"
    by (rule replace_key_set)
  have "fold upsert items (map ?f rows) = map (override items) (map ?f rows)"
    using Cons.prems keys by (intro Cons.IH) simp
  moreover have "override items (?f x) = override (r # items) x" for x
    unfolding override_Cons by (auto simp: override_def split: option.splits)
  ultimately show ?case by (simp add: step)
qed

lemma fold_upsert_fixed:
  "x \<in> set (fold upsert items rows) \<Longrightarrow> override items x = x"
proof (induction items arbitrary: rows)
  case Nil
  then show ?case by (simp add: override_def)
next
  case (Cons r items)
  from Cons.prems have mem: "x \<in> set (fold upsert items (upsert r rows))" by simp
  then have ih: "override items x = x" by (rule Cons.IH)
  show ?case
  proof (cases "find (\<lambda>y. itemKey y = itemKey x) (rev items)")
    case (Some y)
    with ih have "y = x" by (simp add: override_def)
    with Some show ?thesis by (simp add: override_Cons)
  next
    case None
    then have "itemKey x \<notin> itemKey ` set items"
      by (auto simp: find_None_iff)
    with mem have "x \<in> set (upsert r rows)" by (rule fold_upsert_foreign_key)
    then have "itemKey r = itemKey x \<Longrightarrow> r = x" using upsert_same_key by metis
    with None show ?thesis by (simp add: override_Cons)
  qed
qed

lemma repo_save_idem: "repo_save items (repo_save items rows) = repo_save items rows"
proof -
  let ?s = "fold upsert items rows"
  have "itemKey ` set items \<subseteq> itemKey ` set ?s" by (simp add: fold_upsert_keys)
  then have "fold upsert items ?s = map (override items) ?s" by (rule fold_upsert_present)
  also have "\<dots> = ?s" by (rule map_idI) (rule fold_upsert_fixed)
  finally show ?thesis by (simp add: repo_save_def)
qed

lemma repo_delete_keys_idem: "repo_delete_keys ks (repo_delete_keys ks rows) = repo_delete_keys ks rows"
  by (simp add: repo_delete_keys_def)

lemma set_unique: "set (unique xs) = set xs"
  by (induction xs rule: unique.induct) auto

lemma distinct_unique: "distinct (unique xs)"
  by (induction xs rule: unique.induct) (auto simp: set_unique)

lemma toSearchIndexItem_key:
  "itemKey (toSearchIndexItem lang v) = (v_id v, lang)"
  by (simp add: itemKey_def toSearchIndexItem_def translateDeep_def Let_def)

lemma toSearchIndexItem_unionLaw: "unionLaw v (toSearchIndexItem lang v)"
  by (simp add: unionLaw_def toSearchIndexItem_def translateDeep_def translateProduct_def
      getFacetIds_def getFacetValueIds_def set_unique distinct_unique Let_def)

lemma affectedVariants_frame:
  "products db' = products db \<Longrightarrow> variants db' = variants db \<Longrightarrow>
   affectedVariants db' e = affectedVariants db e"
  by (cases e)
    (simp_all add: affectedVariants_def findProduct_def findVariant_def productVariants_def
      findByIds_def split: option.splits)

lemma affectedVariants_exclusive:
  "fst (affectedVariants db e) = [] \<or> snd (affectedVariants db e) = []"
  by (simp add: affectedVariants_def split: Entity.splits option.splits)

lemma find_Some_mem: "find P xs = Some x \<Longrightarrow> x \<in> set xs \<and> P x"
  by (induction xs) (auto split: if_splits)

lemma affectedVariants_subset:
  "set (fst (affectedVariants db e)) \<subseteq> set (variants db)"
  by (auto simp: affectedVariants_def findByIds_def findVariant_def
      split: Entity.splits option.splits dest: find_Some_mem)

lemma update_catalog:
  "products (update ctx e db) = products db \<and> variants (update ctx e db) = variants db"
  by (simp add: update_def saveSearchIndexItems_def removeSearchIndexItems_def Let_def
      split: prod.splits)

lemma index_update:
  "index (update ctx e db) =
     (let uv = fst (affectedVariants db e); rm = snd (affectedVariants db e) in
      if uv \<noteq> [] then repo_save (map (toSearchIndexItem (ctx_languageCode ctx)) uv) (index db)
      else if rm \<noteq> [] then repo_delete_keys (map (\<lambda>i. (i, ctx_languageCode ctx)) rm) (index db)
      else index db)"
  using affectedVariants_exclusive [of db e]
  by (auto simp: update_def saveSearchIndexItems_def removeSearchIndexItems_def Let_def
      split: prod.splits)

lemma index_reindex:
  "index (snd (reindex lang db)) =
     repo_save (map (toSearchIndexItem lang) (filter (\<lambda>v. p_deletedAt (v_product v) = None) (variants db)))
       (repo_delete_language lang (index db))"
  by (simp add: reindex_def saveSearchIndexItems_def Let_def)

lemma effects_reindex:
  "effects (snd (reindex lang db)) =
     effects db @ [ReindexRun lang, StoreDeleteLanguage lang,
       StoreSave (map (toSearchIndexItem lang) (filter (\<lambda>v. p_deletedAt (v_product v) = None) (variants db)))]"
  by (simp add: reindex_def saveSearchIndexItems_def Let_def)

lemma reindexRuns_reindex: "reindexRuns (snd (reindex lang db)) = Suc (reindexRuns db)"
  by (simp add: reindexRuns_def effects_reindex)

lemma repo_save_count:
  assumes "items \<noteq> []" and "\<forall>r\<in>set items. languageCode r = lang"
  shows "repo_count lang (repo_save items rows) \<noteq> 0"
proof -
  from assms(1) obtain r where r: "r \<in> set items" by (cases items) auto
  then have "itemKey r \<in> itemKey ` set (fold upsert items rows)"
    by (simp add: fold_upsert_keys)
  then obtain x where x: "x \<in> set (fold upsert items rows)" "itemKey x = itemKey r" by auto
  from x(2) r assms(2) have "languageCode x = lang" by (simp add: itemKey_def)
  with x(1) have "filter (\<lambda>r. languageCode r = lang) (fold upsert items rows) \<noteq> []"
    by (auto simp: filter_empty_conv)
  then show ?thesis by (simp add: repo_count_def repo_save_def)
qed

lemma reindex_count:
  assumes "v \<in> set (variants db)" "p_deletedAt (v_product v) = None"
  shows "repo_count lang (index (snd (reindex lang db))) \<noteq> 0"
proof -
  let ?vs = "filter (\<lambda>v. p_deletedAt (v_product v) = None) (variants db)"
  from assms have "v \<in> set ?vs" by simp
  then have "?vs \<noteq> []" by (metis empty_iff list.set(1))
  then have "map (toSearchIndexItem lang) ?vs \<noteq> []" by simp
  moreover have "\<forall>r\<in>set (map (toSearchIndexItem lang) ?vs). languageCode r = lang"
    by (simp add: toSearchIndexItem_def Let_def)
  ultimately show ?thesis unfolding index_reindex by (rule repo_save_count)
qed

lemmas example_defs =
  exampleProduct_def exampleVariant_def exampleDb_def exampleCtx_def exampleItem_def
  findProduct_def findVariant_def productVariants_def findByIds_def affectedVariants_def
  update_def saveSearchIndexItems_def removeSearchIndexItems_def reindex_def checkIndex_def
  repo_save_def repo_delete_keys_def repo_delete_language_def repo_count_def upsert_def
  itemKey_def toSearchIndexItem_def translateDeep_def translateProduct_def
  getFacetIds_def getFacetValueIds_def reindexRuns_def Let_def

text \<open>
  Claim C2, amended. When the notified product is soft-deleted, \<open>update\<close> deletes exactly
  the index records whose variant belongs to that product and whose language is the
  language of the request; every other record is kept, among them the records of those
  variants in other languages.
\<close>

theorem soft_delete_removes_request_language_only:
  assumes "findProduct db pid = Some product" and "p_deletedAt product \<noteq> None"
  shows "index (update ctx (ProductEntity pid) db) =
           filter (\<lambda>r. \<not> (productVariantId r \<in> v_id ` set (productVariants db product)
                            \<and> languageCode r = ctx_languageCode ctx)) (index db)"
proof -
  have av: "affectedVariants db (ProductEntity pid) = ([], map v_id (productVariants db product))"
    using assms by (simp add: affectedVariants_def)
  show ?thesis
    by (auto simp: index_update av repo_delete_keys_def itemKey_def image_iff
        intro!: filter_cong)
qed

text \<open>
  The amended claim on the example catalog: of the records of variant \<open>v1\<close> in \<open>en\<close> and
  \<open>de\<close> and of a foreign variant, a request in \<open>en\<close> removes the first only.
\<close>

theorem soft_delete_removes_request_language_only_witness:
  "index (update exampleCtx (ProductEntity ''p1'')
            (exampleDb (Some 1)
               [exampleItem ''v1'' ''p1'' ''SKU'' ''Shirt'' [],
                (exampleItem ''v1'' ''p1'' ''SKU'' ''Hemd'' [])\<lparr> languageCode := ''de'' \<rparr>,
                exampleItem ''v9'' ''p9'' ''SKU'' ''Hat'' []]))
   = [(exampleItem ''v1'' ''p1'' ''SKU'' ''Hemd'' [])\<lparr> languageCode := ''de'' \<rparr>,
      exampleItem ''v9'' ''p9'' ''SKU'' ''Hat'' []]"
proof -
  have found: "findProduct (exampleDb (Some 1) idx) ''p1'' = Some (exampleProduct ''p1'' (Some 1))" for idx
    by (simp add: findProduct_def exampleDb_def exampleProduct_def)
  have deleted: "p_deletedAt (exampleProduct ''p1'' (Some 1)) \<noteq> None"
    by (simp add: exampleProduct_def)
  show ?thesis
    using soft_delete_removes_request_language_only [OF found deleted, of exampleCtx]
    by (simp add: exampleDb_def exampleProduct_def exampleVariant_def exampleCtx_def
        exampleItem_def productVariants_def)
qed

text \<open>
  Claim C2 as stated fails: product \<open>p1\<close> is soft-deleted, \<open>v1\<close> is its variant, and after
  the update of a request in \<open>en\<close> the record of \<open>v1\<close> in \<open>de\<close> is still in the index.
\<close>

theorem soft_delete_other_language_counterexample:
  "findProduct (exampleDb (Some 1) [(exampleItem ''v1'' ''p1'' ''SKU'' ''Hemd'' [])\<lparr> languageCode := ''de'' \<rparr>]) ''p1''
     = Some (exampleProduct ''p1'' (Some 1))
   \<and> p_deletedAt (exampleProduct ''p1'' (Some 1)) = Some 1
   \<and> map v_id (productVariants (exampleDb (Some 1) [(exampleItem ''v1'' ''p1'' ''SKU'' ''Hemd'' [])\<lparr> languageCode := ''de'' \<rparr>])
        (exampleProduct ''p1'' (Some 1))) = [''v1'']
   \<and> map itemKey (index (update exampleCtx (ProductEntity ''p1'')
        (exampleDb (Some 1) [(exampleItem ''v1'' ''p1'' ''SKU'' ''Hemd'' [])\<lparr> languageCode := ''de'' \<rparr>])))
     = [(''v1'', ''de'')]"
  by (simp add: example_defs)

text \<open>
  Claim C7. \<open>update\<close> is idempotent on the index: a second \<open>update\<close> for the same
  notification leaves the index as the first one left it. The catalog tables are not
  touched.
\<close>

theorem update_idempotent:
  "index (update ctx e (update ctx e db)) = index (update ctx e db)
   \<and> products (update ctx e db) = products db \<and> variants (update ctx e db) = variants db"
proof -
  have "affectedVariants (update ctx e db) e = affectedVariants db e"
    by (rule affectedVariants_frame) (simp_all add: update_catalog)
  then have "index (update ctx e (update ctx e db)) = index (update ctx e db)"
    by (simp add: index_update [of ctx e "update ctx e db"] index_update [of ctx e db]
        Let_def repo_save_idem repo_delete_keys_idem)
  then show ?thesis by (simp add: update_catalog)
qed

theorem update_idempotent_witness:
  "index (update exampleCtx (ProductVariantEntity ''v1'')
            (update exampleCtx (ProductVariantEntity ''v1'') (exampleDb None [])))
   = index (update exampleCtx (ProductVariantEntity ''v1'') (exampleDb None []))
   \<and> map itemKey (index (update exampleCtx (ProductVariantEntity ''v1'') (exampleDb None [])))
     = [(''v1'', ''en'')]"
  using update_idempotent [of exampleCtx "ProductVariantEntity ''v1''" "exampleDb None []"]
  by (simp add: example_defs)

text \<open>
  Claim C6. The record built for a variant obeys the union law, and so does every
  record that \<open>update\<close> or \<open>reindex\<close> leaves in the index without having found it
  there: it is the record of a catalog variant, with the key of that variant and the
  language written, and its \<open>facetIds\<close> and \<open>facetValueIds\<close> are the duplicate-free
  unions over the variant and its parent product.
\<close>

theorem written_records_union_law:
  "unionLaw v (toSearchIndexItem lang v)
   \<and> (r \<in> set (index (update ctx e db)) \<longrightarrow>
        r \<in> set (index db)
        \<or> (\<exists>v\<in>set (variants db). itemKey r = (v_id v, ctx_languageCode ctx) \<and> unionLaw v r))
   \<and> (r \<in> set (index (snd (reindex lang db))) \<longrightarrow>
        (r \<in> set (index db) \<and> languageCode r \<noteq> lang)
        \<or> (\<exists>v\<in>set (variants db). itemKey r = (v_id v, lang) \<and> unionLaw v r))"
proof (intro conjI impI)
  show "unionLaw v (toSearchIndexItem lang v)" by (rule toSearchIndexItem_unionLaw)
next
  assume r: "r \<in> set (index (update ctx e db))"
  let ?uv = "fst (affectedVariants db e)"
  let ?l = "ctx_languageCode ctx"
  from r have "r \<in> set (index db) \<or> r \<in> set (map (toSearchIndexItem ?l) ?uv)"
    by (auto simp: index_update Let_def repo_save_def repo_delete_keys_def
        split: if_splits dest: fold_upsert_member)
  moreover have "set ?uv \<subseteq> set (variants db)" by (rule affectedVariants_subset)
  ultimately show "r \<in> set (index db)
      \<or> (\<exists>v\<in>set (variants db). itemKey r = (v_id v, ?l) \<and> unionLaw v r)"
    using toSearchIndexItem_unionLaw toSearchIndexItem_key by auto
next
  assume r: "r \<in> set (index (snd (reindex lang db)))"
  let ?vs = "filter (\<lambda>v. p_deletedAt (v_product v) = None) (variants db)"
  from r have "r \<in> set (repo_delete_language lang (index db))
      \<or> r \<in> set (map (toSearchIndexItem lang) ?vs)"
    by (auto simp: index_reindex repo_save_def dest: fold_upsert_member)
  then show "(r \<in> set (index db) \<and> languageCode r \<noteq> lang)
      \<or> (\<exists>v\<in>set (variants db). itemKey r = (v_id v, lang) \<and> unionLaw v r)"
    using toSearchIndexItem_unionLaw toSearchIndexItem_key
    by (auto simp: repo_delete_language_def)
qed

theorem written_records_union_law_witness:
  "facetIds (toSearchIndexItem ''en'' (exampleVariant ''v1'' (exampleProduct ''p1'' None)
       [\<lparr> fv_id = ''red'', fv_facet_id = ''color'' \<rparr>, \<lparr> fv_id = ''m'', fv_facet_id = ''size'' \<rparr>]))
     = [''color'', ''size'']
   \<and> facetValueIds (toSearchIndexItem ''en'' (exampleVariant ''v1'' (exampleProduct ''p1'' None)
       [\<lparr> fv_id = ''red'', fv_facet_id = ''color'' \<rparr>, \<lparr> fv_id = ''m'', fv_facet_id = ''size'' \<rparr>]))
     = [''red'', ''m'']
   \<and> unionLaw (exampleVariant ''v1'' (exampleProduct ''p1'' None)
       [\<lparr> fv_id = ''red'', fv_facet_id = ''color'' \<rparr>, \<lparr> fv_id = ''m'', fv_facet_id = ''size'' \<rparr>])
      (toSearchIndexItem ''en'' (exampleVariant ''v1'' (exampleProduct ''p1'' None)
       [\<lparr> fv_id = ''red'', fv_facet_id = ''color'' \<rparr>, \<lparr> fv_id = ''m'', fv_facet_id = ''size'' \<rparr>]))"
  using written_records_union_law [of "exampleVariant ''v1'' (exampleProduct ''p1'' None)
       [\<lparr> fv_id = ''red'', fv_facet_id = ''color'' \<rparr>, \<lparr> fv_id = ''m'', fv_facet_id = ''size'' \<rparr>]" "''en''"]
  by (simp add: toSearchIndexItem_def translateDeep_def translateProduct_def getFacetIds_def
      getFacetValueIds_def exampleVariant_def exampleProduct_def Let_def)

text \<open>
  Claim C8, amended. On an index with no record for the language, \<open>checkIndex\<close> does
  exactly what one \<open>reindex\<close> does (one more reindex run); on an index with a record for
  the language it changes nothing and writes nothing; and when the catalog has a variant
  whose product is not soft-deleted, \<open>checkIndex\<close> right after \<open>reindex\<close> changes nothing.
\<close>

theorem checkIndex_reindexes_only_when_empty:
  "(repo_count lang (index db) = 0 \<longrightarrow>
      checkIndex lang db = snd (reindex lang db)
      \<and> reindexRuns (checkIndex lang db) = reindexRuns db + 1)
   \<and> (repo_count lang (index db) \<noteq> 0 \<longrightarrow> checkIndex lang db = db)
   \<and> ((\<exists>v\<in>set (variants db). p_deletedAt (v_product v) = None) \<longrightarrow>
      checkIndex lang (snd (reindex lang db)) = snd (reindex lang db))"
proof (intro conjI impI)
  assume "repo_count lang (index db) = 0"
  then show "checkIndex lang db = snd (reindex lang db)" by (simp add: checkIndex_def)
  then show "reindexRuns (checkIndex lang db) = reindexRuns db + 1"
    by (simp add: reindexRuns_reindex)
next
  assume "repo_count lang (index db) \<noteq> 0"
  then show "checkIndex lang db = db" by (simp add: checkIndex_def)
next
  assume "\<exists>v\<in>set (variants db). p_deletedAt (v_product v) = None"
  then have "repo_count lang (index (snd (reindex lang db))) \<noteq> 0"
    using reindex_count by blast
  then show "checkIndex lang (snd (reindex lang db)) = snd (reindex lang db)"
    by (simp add: checkIndex_def)
qed

theorem checkIndex_reindexes_only_when_empty_witness:
  "reindexRuns (checkIndex ''en'' (exampleDb None [])) = 1
   \<and> reindexRuns (checkIndex ''en'' (snd (reindex ''en'' (exampleDb None [])))) = 1
   \<and> checkIndex ''en'' (exampleDb None [exampleItem ''v1'' ''p1'' ''SKU'' ''Shirt'' []])
      = exampleDb None [exampleItem ''v1'' ''p1'' ''SKU'' ''Shirt'' []]"
proof -
  have empty: "repo_count ''en'' (index (exampleDb None [])) = 0"
    by (simp add: repo_count_def exampleDb_def)
  have filled: "repo_count ''en'' (index (exampleDb None [exampleItem ''v1'' ''p1'' ''SKU'' ''Shirt'' []])) \<noteq> 0"
    by (simp add: repo_count_def exampleDb_def exampleItem_def)
  have live: "\<exists>v\<in>set (variants (exampleDb None [])). p_deletedAt (v_product v) = None"
    by (simp add: exampleDb_def exampleVariant_def exampleProduct_def)
  have runs0: "reindexRuns (exampleDb None []) = 0"
    by (simp add: reindexRuns_def exampleDb_def)
  show ?thesis
    using checkIndex_reindexes_only_when_empty [of "''en''" "exampleDb None []"]
      checkIndex_reindexes_only_when_empty
        [of "''en''" "exampleDb None [exampleItem ''v1'' ''p1'' ''SKU'' ''Shirt'' []]"]
      empty filled live runs0
    by (simp add: reindexRuns_reindex)
qed

text \<open>
  Claim C8 as stated fails on a catalog without variants: \<open>reindex\<close> leaves the index
  empty, and the \<open>checkIndex\<close> that follows runs a second reindex.
\<close>

theorem reindex_then_checkIndex_counterexample:
  "reindexRuns (snd (reindex ''en'' \<lparr> products = [], variants = [], index = [], effects = [] \<rparr>)) = 1
   \<and> reindexRuns (checkIndex ''en''
        (snd (reindex ''en'' \<lparr> products = [], variants = [], index = [], effects = [] \<rparr>))) = 2"
  by (simp add: example_defs)

text \<open>
  Claim C9. The constructor selects the MySQL strategy for \<open>mysql\<close> and \<open>mariadb\<close>, the
  SQLite strategy for \<open>sqlite\<close> and \<open>sqljs\<close>, the Postgres strategy for \<open>postgres\<close>, and
  throws \<open>InternalServerError\<close> for every other database type.
\<close>

theorem strategy_selection:
  "(dbType \<in> {''mysql'', ''mariadb''} \<longrightarrow> selectSearchStrategy dbType = Inr MysqlSearchStrategy)
   \<and> (dbType \<in> {''sqlite'', ''sqljs''} \<longrightarrow> selectSearchStrategy dbType = Inr SqliteSearchStrategy)
   \<and> (dbType = ''postgres'' \<longrightarrow> selectSearchStrategy dbType = Inr PostgresSearchStrategy)
   \<and> (dbType \<notin> {''mysql'', ''mariadb'', ''sqlite'', ''sqljs'', ''postgres''} \<longrightarrow>
        selectSearchStrategy dbType
          = Inl (InternalServerError ''error.database-not-supported-by-default-search-plugin''))"
  by (auto simp: selectSearchStrategy_def)

theorem strategy_selection_witness:
  "selectSearchStrategy ''mariadb'' = Inr MysqlSearchStrategy
   \<and> selectSearchStrategy ''sqljs'' = Inr SqliteSearchStrategy
   \<and> selectSearchStrategy ''postgres'' = Inr PostgresSearchStrategy
   \<and> selectSearchStrategy ''mongodb''
       = Inl (InternalServerError ''error.database-not-supported-by-default-search-plugin'')"
  using strategy_selection [of "''mariadb''"] strategy_selection [of "''sqljs''"]
    strategy_selection [of "''postgres''"] strategy_selection [of "''mongodb''"]
  by simp

lemma fold_andWhere:
  "fold (\<lambda>i q. let placeholder = ''_'' @ i
                in andWhere (findInSet placeholder) [(placeholder, i)] q) ids q
     = q\<lparr> qb_wheres := qb_wheres q @ map (\<lambda>i. findInSet (''_'' @ i)) ids,
           qb_parameters := qb_parameters q @ map (\<lambda>i. (''_'' @ i, i)) ids \<rparr>"
  by (induction ids arbitrary: q) (simp_all add: andWhere_def setParameters_def Let_def)

lemmas builder_defs =
  createQueryBuilder_def whereCond_def andWhere_def setParameters_def
  addSelect_def groupByProduct_def Let_def minTermLength_def

lemma atf_selects:
  "qb_selects (applyTermAndFilters E createQueryBuilder input) =
     (case termRanks input of
        Some t \<Rightarrow> [(''sku_score'', \<lambda>b. skuScoreExpr E (b ''like_term'')),
                   (''score'', \<lambda>b. scoreExpr E (b ''term'') (b ''like_term''))]
      | None \<Rightarrow> [])"
  unfolding applyTermAndFilters_def fold_andWhere
  by (simp add: builder_defs termRanks_def split: option.splits)

lemma atf_wheres:
  "qb_wheres (applyTermAndFilters E createQueryBuilder input) =
     [\<lambda>b r. True]
     @ (case termRanks input of
          Some t \<Rightarrow> [\<lambda>b. termCond E (b ''term'') (b ''like_term'')] | None \<Rightarrow> [])
     @ (case in_facetIds input of
          Some ids \<Rightarrow> map (\<lambda>i. findInSet (''_'' @ i)) ids | None \<Rightarrow> [])"
  unfolding applyTermAndFilters_def fold_andWhere
  by (simp add: builder_defs termRanks_def split: option.splits)

lemma atf_parameters:
  "qb_parameters (applyTermAndFilters E createQueryBuilder input) = queryParameters input"
  unfolding applyTermAndFilters_def fold_andWhere
  by (simp add: builder_defs termRanks_def queryParameters_def split: option.splits)

lemma atf_rest:
  "qb_groupByProductId (applyTermAndFilters E createQueryBuilder input)
     = (in_groupByProduct input = Some True)
   \<and> qb_orderBys (applyTermAndFilters E createQueryBuilder input) = []
   \<and> qb_take (applyTermAndFilters E createQueryBuilder input) = None
   \<and> qb_skip (applyTermAndFilters E createQueryBuilder input) = None"
  unfolding applyTermAndFilters_def fold_andWhere
  by (simp add: builder_defs split: option.splits)

lemma srq_filter:
  "qb_selects (searchResultsQuery E input) = qb_selects (applyTermAndFilters E createQueryBuilder input)
   \<and> qb_wheres (searchResultsQuery E input) = qb_wheres (applyTermAndFilters E createQueryBuilder input)
   \<and> qb_groupByProductId (searchResultsQuery E input)
       = qb_groupByProductId (applyTermAndFilters E createQueryBuilder input)
   \<and> qb_parameters (searchResultsQuery E input) = queryParameters input"
  by (simp add: searchResultsQuery_def orderBy_def addOrderBy_def takeRows_def skipRows_def
      atf_parameters Let_def split: option.splits)

lemma srq_page:
  "qb_take (searchResultsQuery E input) = Some (pageTake input)
   \<and> qb_skip (searchResultsQuery E input) = Some (pageSkip input)"
  by (simp add: searchResultsQuery_def orderBy_def addOrderBy_def takeRows_def skipRows_def
      pageTake_def pageSkip_def Let_def split: option.splits)

lemma srq_orderBys: "qb_orderBys (searchResultsQuery E input) = sortKeys input"
  by (simp add: searchResultsQuery_def orderBy_def addOrderBy_def takeRows_def skipRows_def
      sortKeys_def termRanks_def atf_rest minTermLength_def Let_def split: option.splits)

lemma selectedRows_cong:
  "qb_selects a = qb_selects c \<Longrightarrow> qb_wheres a = qb_wheres c \<Longrightarrow>
   qb_groupByProductId a = qb_groupByProductId c \<Longrightarrow> selectedRows b a rows = selectedRows b c rows"
  by (simp add: selectedRows_def matchingRows_def)

lemma length_insertRow: "length (insertRow ks x ys) = Suc (length ys)"
  by (induction ys) simp_all

lemma set_insertRow: "set (insertRow ks x ys) = insert x (set ys)"
  by (induction ys) auto

lemma length_orderRows: "length (orderRows ks rows) = length rows"
  by (induction rows) (simp_all add: orderRows_def length_insertRow)

lemma set_orderRows: "set (orderRows ks rows) = set rows"
  by (induction rows) (simp_all add: orderRows_def set_insertRow)

lemma orderRows_single: "orderRows ks [x] = [x]"
  by (simp add: orderRows_def)

lemma keyBefore_asym: "keyBefore k a b \<Longrightarrow> \<not> keyBefore k b a"
  by (auto simp: keyBefore_def Let_def split: if_splits)

lemma keyBefore_negtrans:
  "\<not> keyBefore k a b \<Longrightarrow> \<not> keyBefore k b c \<Longrightarrow> \<not> keyBefore k a c"
  by (auto simp: keyBefore_def Let_def split: if_splits)

lemma rowBefore_asym: "rowBefore ks a b \<Longrightarrow> \<not> rowBefore ks b a"
  by (induction ks) (auto dest: keyBefore_asym)

lemma rowBefore_negtrans:
  "\<not> rowBefore ks a b \<Longrightarrow> \<not> rowBefore ks b c \<Longrightarrow> \<not> rowBefore ks a c"
proof (induction ks)
  case Nil
  then show ?case by simp
next
  case (Cons k ks)
  from Cons.prems have ab: "\<not> keyBefore k a b" and bc: "\<not> keyBefore k b c" by auto
  then have ac: "\<not> keyBefore k a c" by (rule keyBefore_negtrans)
  show ?case
  proof (cases "keyBefore k c a")
    case True
    with ac show ?thesis by simp
  next
    case False
    have "\<not> keyBefore k b a" using False bc keyBefore_negtrans by blast
    moreover have "\<not> keyBefore k c b" using False ab keyBefore_negtrans by blast
    ultimately have "\<not> rowBefore ks a b" "\<not> rowBefore ks b c" using Cons.prems by auto
    then have "\<not> rowBefore ks a c" by (rule Cons.IH)
    with ac show ?thesis by simp
  qed
qed

lemma sorted_insertRow:
  "sorted_wrt (\<lambda>a b. \<not> rowBefore ks b a) ys \<Longrightarrow>
   sorted_wrt (\<lambda>a b. \<not> rowBefore ks b a) (insertRow ks x ys)"
proof (induction ys)
  case Nil
  then show ?case by simp
next
  case (Cons y ys)
  show ?case
  proof (cases "rowBefore ks y x")
    case True
    then have "\<not> rowBefore ks x y" by (rule rowBefore_asym)
    with True Cons show ?thesis by (auto simp: set_insertRow)
  next
    case False
    have "\<not> rowBefore ks z x" if "z \<in> set ys" for z
    proof -
      from that Cons.prems have "\<not> rowBefore ks z y" by simp
      then show ?thesis using False by (rule rowBefore_negtrans)
    qed
    with False Cons.prems show ?thesis by auto
  qed
qed

lemma sorted_orderRows: "sorted_wrt (\<lambda>a b. \<not> rowBefore ks b a) (orderRows ks rows)"
proof (induction rows)
  case Nil
  then show ?case by (simp add: orderRows_def)
next
  case (Cons x rows)
  then have "sorted_wrt (\<lambda>a b. \<not> rowBefore ks b a) (insertRow ks x (orderRows ks rows))"
    by (rule sorted_insertRow)
  then show ?case by (simp add: orderRows_def)
qed

lemma set_groupRows: "set (groupRows rows) \<subseteq> set rows"
  by (induction rows rule: groupRows.induct) auto




lemma insertRow_no_keys: "insertRow [] x ys = x # ys"
  by (cases ys) simp_all

lemma orderRows_no_keys: "orderRows [] rows = rows"
  by (induction rows) (simp_all add: orderRows_def insertRow_no_keys)

lemma getRawMany_search:
  "getRawMany E (searchResultsQuery E input) rows =
     map_sum id
       (\<lambda>b. take (pageTake input) (drop (pageSkip input)
          (orderRows (sortKeys input)
             (selectedRows b (applyTermAndFilters E createQueryBuilder input) rows))))
       (bindParameters E (queryParameters input))"
proof -
  have "selectedRows b (searchResultsQuery E input) rows
          = selectedRows b (applyTermAndFilters E createQueryBuilder input) rows" for b
    by (rule selectedRows_cong) (simp_all add: srq_filter)
  then show ?thesis
    by (simp add: getRawMany_def srq_page srq_orderBys srq_filter split: sum.splits)
qed


lemma getRawMany_inner:
  "getRawMany E (applyTermAndFilters E createQueryBuilder input) rows
     = map_sum id (\<lambda>b. selectedRows b (applyTermAndFilters E createQueryBuilder input) rows)
         (bindParameters E (queryParameters input))"
  by (simp add: getRawMany_def atf_rest atf_parameters orderRows_no_keys split: sum.splits)

lemma getTotalCount_bound:
  "getTotalCount E ctx input rows
     = map_sum id
         (\<lambda>b. length (selectedRows b (applyTermAndFilters E createQueryBuilder input) rows))
         (bindParameters E (queryParameters input))"
  by (cases "bindParameters E (queryParameters input)")
    (simp_all add: getTotalCount_def getRawMany_inner)

lemma getSearchResults_bound:
  "getSearchResults E ctx input rows
     = map_sum id
         (\<lambda>b. map (\<lambda>r. mapToSearchResult r (ctx_currencyCode ctx))
            (take (pageTake input) (drop (pageSkip input)
              (orderRows (sortKeys input)
                 (selectedRows b (applyTermAndFilters E createQueryBuilder input) rows)))))
         (bindParameters E (queryParameters input))"
  by (cases "bindParameters E (queryParameters input)")
    (simp_all add: getSearchResults_def getRawMany_search)

lemma length_getSearchResults:
  "map_sum id length (getSearchResults E ctx input rows)
     = map_sum id (\<lambda>total. min (pageTake input) (total - pageSkip input))
         (getTotalCount E ctx input rows)"
  by (cases "bindParameters E (queryParameters input)")
    (simp_all add: getSearchResults_bound getTotalCount_bound length_orderRows)

lemma selectedRows_member:
  assumes "r \<in> set (selectedRows b q rows)"
  shows "raw_si r \<in> set rows \<and> list_all (\<lambda>c. c b (raw_si r)) (qb_wheres q)
         \<and> raw_extra r = map (\<lambda>(alias, e). (alias, e b (raw_si r))) (qb_selects q)"
proof -
  let ?m = "matchingRows b q rows"
  from assms obtain x where x: "x \<in> set ?m"
      and r: "r = \<lparr> raw_si = x, raw_extra = map (\<lambda>(alias, e). (alias, e b x)) (qb_selects q) \<rparr>"
    using set_groupRows [of ?m] by (auto simp: selectedRows_def split: if_splits)
  from x have "x \<in> set rows \<and> list_all (\<lambda>c. c b x) (qb_wheres q)"
    by (simp add: matchingRows_def)
  with r show ?thesis by simp
qed

lemma selectedRows_none:
  "matchingRows b q rows = [] \<Longrightarrow> selectedRows b q rows = []"
  by (simp add: selectedRows_def)

lemma selectedRows_one:
  "matchingRows b q rows = [x] \<Longrightarrow> map raw_si (selectedRows b q rows) = [x]"
  by (simp add: selectedRows_def)

lemma pageTake_pos: "0 < pageTake input"
  by (simp add: pageTake_def split: option.splits)

lemma plainName_placeholder: "plainName (CHR ''_'' # i) = plainName i"
  by (simp add: plainName_def wordChar_def)

lemma plainName_term: "plainName ''term''" "plainName ''like_term''"
  by (simp_all add: plainName_def wordChar_def)

lemma plain_placeholders:
  "list_all (\<lambda>p. plainName (fst p)) (map (\<lambda>i. (CHR ''_'' # i, i)) ids) = list_all plainName ids"
  by (induction ids) (simp_all add: plainName_placeholder)

lemma plain_parameters:
  "plainFacetIds input \<Longrightarrow> list_all (\<lambda>p. plainName (fst p)) (queryParameters input)"
  by (cases "termRanks input"; cases "in_facetIds input")
    (simp_all add: queryParameters_def plainFacetIds_def plain_placeholders plainName_term)

lemma plain_binding:
  "plainFacetIds input \<Longrightarrow>
   bindParameters E (queryParameters input) = Inr (paramValue (queryParameters input))"
  by (simp add: bindParameters_def plain_parameters)

lemma map_of_rev_unique:
  assumes "n \<in> fst ` set ps" and "\<And>v. (n, v) \<in> set ps \<Longrightarrow> v = x"
  shows "map_of (rev ps) n = Some x"
proof -
  from assms(1) have "n \<in> fst ` set (rev ps)" by simp
  then obtain y where y: "map_of (rev ps) n = Some y"
    by (metis map_of_eq_None_iff not_None_eq)
  then have "(n, y) \<in> set (rev ps)" by (rule map_of_SomeD)
  then have "y = x" using assms(2) by simp
  with y show ?thesis by simp
qed

lemma paramValue_term:
  assumes "termRanks input = Some t"
  shows "paramValue (queryParameters input) ''term'' = t"
    and "paramValue (queryParameters input) ''like_term'' = likeTerm t"
proof -
  have "map_of (rev (queryParameters input)) ''term'' = Some t"
    using assms by (intro map_of_rev_unique) (auto simp: queryParameters_def split: option.splits)
  then show "paramValue (queryParameters input) ''term'' = t" by (simp add: paramValue_def)
  have "map_of (rev (queryParameters input)) ''like_term'' = Some (likeTerm t)"
    using assms by (intro map_of_rev_unique) (auto simp: queryParameters_def split: option.splits)
  then show "paramValue (queryParameters input) ''like_term'' = likeTerm t"
    by (simp add: paramValue_def)
qed

lemma paramValue_facet:
  assumes "in_facetIds input = Some ids" and "i \<in> set ids"
  shows "paramValue (queryParameters input) (''_'' @ i) = i"
proof -
  from assms have "(''_'' @ i, i) \<in> set (queryParameters input)"
    by (simp add: queryParameters_def)
  then have key: "''_'' @ i \<in> fst ` set (queryParameters input)"
    by (metis fst_conv imageI)
  have "v = i" if "(''_'' @ i, v) \<in> set (queryParameters input)" for v
    using that assms by (auto simp: queryParameters_def split: option.splits)
  with key have "map_of (rev (queryParameters input)) (''_'' @ i) = Some i"
    by (rule map_of_rev_unique)
  then show ?thesis by (simp add: paramValue_def)
qed

lemma map_sum_Inr:
  "map_sum id f x = Inr y \<Longrightarrow> \<exists>b. x = Inr b \<and> y = f b"
  by (cases x) auto

lemma paged_member: "r \<in> set (take n (drop m (orderRows ks xs))) \<Longrightarrow> r \<in> set xs"
  by (metis in_set_takeD in_set_dropD set_orderRows)

lemmas query_defs =
  getSearchResults_def getTotalCount_def searchResultsQuery_def applyTermAndFilters_def
  getRawMany_def bindParameters_def paramValue_def plainName_def wordChar_def
  orderRows_def selectedRows_def matchingRows_def createQueryBuilder_def
  whereCond_def andWhere_def setParameters_def addSelect_def groupByProduct_def orderBy_def
  addOrderBy_def takeRows_def skipRows_def minTermLength_def termCond_def scoreExpr_def
  skuScoreExpr_def likeTerm_def findInSet_def mapToSearchResult_def keyBefore_def
  rawScore_def wordEngine_def exampleItem_def exampleInput_def exampleRows_def
  exampleCtx_def Let_def

text \<open>
  Facet filtering for facet ids made of letters, digits and underscores: the search
  returns, every result is a row of the index whose \<open>facetValueIds\<close> hold every listed
  id, the filter \<open>[A,B]\<close> over rows tagged \<open>{A}\<close>, \<open>{B}\<close> and \<open>{A,B}\<close> keeps the last one
  only, and an id that no row carries gives an empty result and a count of zero.
\<close>

lemma facet_filter_conjunctive_plain_ids:
  assumes plain: "plainFacetIds input"
  shows "\<exists>rs. getSearchResults E ctx input rows = Inr rs
           \<and> (\<forall>r\<in>set rs. \<forall>ids. in_facetIds input = Some ids \<longrightarrow>
                 sr_item r \<in> set rows \<and> set ids \<subseteq> set (facetValueIds (sr_item r)))"
    and "A \<noteq> B \<and> facetValueIds ra = [A] \<and> facetValueIds rb = [B] \<and> facetValueIds rab = [A, B]
        \<and> in_term input = None \<and> in_facetIds input = Some [A, B]
        \<and> (in_skip input = None \<or> in_skip input = Some 0)
      \<longrightarrow> map_sum id (map sr_item) (getSearchResults E ctx input [ra, rb, rab]) = Inr [rab]"
    and "\<forall>ids. in_facetIds input = Some ids
             \<and> (\<exists>i\<in>set ids. \<forall>r\<in>set rows. i \<notin> set (facetValueIds r))
      \<longrightarrow> getSearchResults E ctx input rows = Inr [] \<and> getTotalCount E ctx input rows = Inr 0"
proof -
  let ?q = "applyTermAndFilters E createQueryBuilder input"
  let ?b = "paramValue (queryParameters input)"
  note bound = plain_binding [OF plain, of E]
  let ?page = "\<lambda>rows. take (pageTake input) (drop (pageSkip input)
      (orderRows (sortKeys input) (selectedRows ?b ?q rows)))"
  have res: "getSearchResults E ctx input rows
      = Inr (map (\<lambda>r. mapToSearchResult r (ctx_currencyCode ctx)) (?page rows))" for rows
    by (simp add: getSearchResults_bound bound)
  have cnt: "getTotalCount E ctx input rows = Inr (length (selectedRows ?b ?q rows))"
    by (simp add: getTotalCount_bound bound)
  have "\<forall>r\<in>set (map (\<lambda>r. mapToSearchResult r (ctx_currencyCode ctx)) (?page rows)).
          \<forall>ids. in_facetIds input = Some ids \<longrightarrow>
                 sr_item r \<in> set rows \<and> set ids \<subseteq> set (facetValueIds (sr_item r))"
  proof (intro ballI allI impI)
    fix r ids
    assume r: "r \<in> set (map (\<lambda>r. mapToSearchResult r (ctx_currencyCode ctx)) (?page rows))"
      and ids: "in_facetIds input = Some ids"
    from r obtain raw where raw: "raw \<in> set (?page rows)" and item: "sr_item r = raw_si raw"
      by (auto simp: mapToSearchResult_def)
    from raw have "raw \<in> set (selectedRows ?b ?q rows)" by (rule paged_member)
    then have props: "raw_si raw \<in> set rows" "list_all (\<lambda>c. c ?b (raw_si raw)) (qb_wheres ?q)"
      using selectedRows_member by blast+
    from props(2) ids
    have all: "list_all (\<lambda>c. c ?b (raw_si raw)) (map (\<lambda>i. findInSet (''_'' @ i)) ids)"
      by (simp add: atf_wheres)
    have "i \<in> set (facetValueIds (raw_si raw))" if "i \<in> set ids" for i
    proof -
      from all that have "findInSet (''_'' @ i) ?b (raw_si raw)"
        by (simp add: list_all_iff)
      then show ?thesis using paramValue_facet [OF ids that] by (simp add: findInSet_def)
    qed
    with props(1) item
    show "sr_item r \<in> set rows \<and> set ids \<subseteq> set (facetValueIds (sr_item r))" by auto
  qed
  with res show "\<exists>rs. getSearchResults E ctx input rows = Inr rs
           \<and> (\<forall>r\<in>set rs. \<forall>ids. in_facetIds input = Some ids \<longrightarrow>
                 sr_item r \<in> set rows \<and> set ids \<subseteq> set (facetValueIds (sr_item r)))"
    by blast
  show "A \<noteq> B \<and> facetValueIds ra = [A] \<and> facetValueIds rb = [B] \<and> facetValueIds rab = [A, B]
        \<and> in_term input = None \<and> in_facetIds input = Some [A, B]
        \<and> (in_skip input = None \<or> in_skip input = Some 0)
      \<longrightarrow> map_sum id (map sr_item) (getSearchResults E ctx input [ra, rb, rab]) = Inr [rab]"
  proof
    assume h: "A \<noteq> B \<and> facetValueIds ra = [A] \<and> facetValueIds rb = [B] \<and> facetValueIds rab = [A, B]
        \<and> in_term input = None \<and> in_facetIds input = Some [A, B]
        \<and> (in_skip input = None \<or> in_skip input = Some 0)"
    then have ids: "in_facetIds input = Some [A, B]" by simp
    have a: "?b (''_'' @ A) = A" by (rule paramValue_facet [OF ids]) simp
    have b: "?b (''_'' @ B) = B" by (rule paramValue_facet [OF ids]) simp
    from h a b have "matchingRows ?b ?q [ra, rb, rab] = [rab]"
      by (auto simp: matchingRows_def atf_wheres termRanks_def findInSet_def)
    then have "map raw_si (selectedRows ?b ?q [ra, rb, rab]) = [rab]" by (rule selectedRows_one)
    then obtain x where x: "selectedRows ?b ?q [ra, rb, rab] = [x]" "raw_si x = rab" by auto
    from h have skip: "pageSkip input = 0" by (auto simp: pageSkip_def)
    have "take (pageTake input) [x] = [x]"
      using pageTake_pos [of input] by (cases "pageTake input") simp_all
    with x skip show "map_sum id (map sr_item) (getSearchResults E ctx input [ra, rb, rab]) = Inr [rab]"
      by (simp add: res orderRows_single mapToSearchResult_def)
  qed
  show "\<forall>ids. in_facetIds input = Some ids
             \<and> (\<exists>i\<in>set ids. \<forall>r\<in>set rows. i \<notin> set (facetValueIds r))
      \<longrightarrow> getSearchResults E ctx input rows = Inr [] \<and> getTotalCount E ctx input rows = Inr 0"
  proof (intro allI impI)
    fix ids
    assume h: "in_facetIds input = Some ids
        \<and> (\<exists>i\<in>set ids. \<forall>r\<in>set rows. i \<notin> set (facetValueIds r))"
    then obtain i where i: "i \<in> set ids" "\<forall>r\<in>set rows. i \<notin> set (facetValueIds r)" by blast
    from h have ids: "in_facetIds input = Some ids" by simp
    from ids i(1) have cond: "findInSet (''_'' @ i) \<in> set (qb_wheres ?q)" by (simp add: atf_wheres)
    have "\<not> list_all (\<lambda>c. c ?b x) (qb_wheres ?q)" if "x \<in> set rows" for x
    proof -
      from that i(2) have "\<not> findInSet (''_'' @ i) ?b x"
        using paramValue_facet [OF ids i(1)] by (simp add: findInSet_def)
      with cond show ?thesis unfolding list_all_iff by blast
    qed
    then have "matchingRows ?b ?q rows = []"
      by (simp add: matchingRows_def filter_empty_conv)
    then have none: "selectedRows ?b ?q rows = []" by (rule selectedRows_none)
    then show "getSearchResults E ctx input rows = Inr [] \<and> getTotalCount E ctx input rows = Inr 0"
      by (simp add: res cnt orderRows_def)
  qed
qed

text \<open>
  Claim C3, at a facet id with a parenthesis. \<open>applyTermAndFilters\<close> binds each facet id
  as the value of a parameter, but names the parameter after the id (\<open>'_' + id\<close>), and
  the driver looks the placeholders up by a regular expression made of the parameter
  names. For the id \<open>a(b\<close>, which no row of the example index carries, the parameter is
  named \<open>_a(b\<close>, and on the example engine neither \<open>getSearchResults\<close> nor
  \<open>getTotalCount\<close> returns: both end in the error raised when the statement is prepared,
  where the claim has an empty result and a count of zero.
\<close>

theorem facet_id_in_placeholder_name_throws:
  "''a(b'' \<notin> set (concat (map facetValueIds exampleRows))
   \<and> qb_parameters (applyTermAndFilters wordEngine createQueryBuilder
        ((exampleInput None)\<lparr> in_facetIds := Some [''a(b''] \<rparr>)) = [(''_a(b'', ''a(b'')]
   \<and> getSearchResults wordEngine exampleCtx
        ((exampleInput None)\<lparr> in_facetIds := Some [''a(b''] \<rparr>) exampleRows
       = Inl (SyntaxError ''Invalid regular expression'')
   \<and> getTotalCount wordEngine exampleCtx
        ((exampleInput None)\<lparr> in_facetIds := Some [''a(b''] \<rparr>) exampleRows
       = Inl (SyntaxError ''Invalid regular expression'')"
  by (simp add: query_defs)

text \<open>The observable part of it: the search throws.\<close>

theorem facet_id_in_placeholder_name_throws_witness:
  "getSearchResults wordEngine exampleCtx
     ((exampleInput None)\<lparr> in_facetIds := Some [''a(b''] \<rparr>) exampleRows
   = Inl (SyntaxError ''Invalid regular expression'')"
  by (rule conjunct1 [OF conjunct2 [OF conjunct2 [OF facet_id_in_placeholder_name_throws]]])

lemma facet_filter_example:
  "map_sum id (map (productVariantId \<circ> sr_item))
     (getSearchResults wordEngine exampleCtx
        ((exampleInput None)\<lparr> in_facetIds := Some [''A'', ''B''] \<rparr>) exampleRows) = Inr [''v3'']
   \<and> getSearchResults wordEngine exampleCtx
        ((exampleInput None)\<lparr> in_facetIds := Some [''A'', ''nope''] \<rparr>) exampleRows = Inr []
   \<and> getTotalCount wordEngine exampleCtx
        ((exampleInput None)\<lparr> in_facetIds := Some [''A'', ''nope''] \<rparr>) exampleRows = Inr 0"
  by (simp add: query_defs)

text \<open>
  Claim C4, amended. When the term ranks (it is longer than \<open>minTermLength\<close>), the ORDER
  BY list is score descending, then the product name if a name sort is requested, then
  the price if a price sort is requested, and whatever the search returns is sorted by
  these keys, hence by descending score. When moreover the facet ids are made of
  letters, digits and underscores, the search returns, and the score of every result is
  the SKU bonus plus the fulltext rank of the product name times 2, of the variant name
  times 1.5 and of the description times 1, where the SKU bonus is 10 when the SKU
  matches the store's LIKE pattern \<open>%term%\<close> and 0 otherwise. The term goes into the
  pattern as it is, so a \<open>%\<close> or \<open>_\<close> in it is a wildcard of the pattern.
\<close>

theorem ranking_score_and_order:
  assumes "in_term input = Some t" and "minTermLength < length t"
  shows "qb_orderBys (searchResultsQuery E input) =
             (''score'', DESC)
             # (case in_sort input of
                  Some s \<Rightarrow>
                    (case sort_name s of Some d \<Rightarrow> [(''productName'', d)] | None \<Rightarrow> [])
                    @ (case sort_price s of Some d \<Rightarrow> [(''price'', d)] | None \<Rightarrow> [])
                | None \<Rightarrow> [])
         \<and> (\<forall>raws. getRawMany E (searchResultsQuery E input) rows = Inr raws \<longrightarrow>
               sorted_wrt (\<lambda>a b. \<not> rowBefore (qb_orderBys (searchResultsQuery E input)) b a) raws)
         \<and> (\<forall>rs. getSearchResults E ctx input rows = Inr rs \<longrightarrow>
               sorted_wrt (\<lambda>a b. \<exists>x y. sr_score a = Some x \<and> sr_score b = Some y \<and> y \<le> x) rs)
         \<and> ((case in_facetIds input of Some ids \<Rightarrow> list_all plainName ids | None \<Rightarrow> True) \<longrightarrow>
               (\<exists>rs. getSearchResults E ctx input rows = Inr rs
                  \<and> (\<forall>r\<in>set rs.
                        sr_score r =
                          Some ((if sqlLike E (sku (sr_item r)) (''%'' @ t @ ''%'') then 10 else 0)
                                + matchAgainst E (productName (sr_item r)) t * 2
                                + matchAgainst E (productVariantName (sr_item r)) t * (3 / 2)
                                + matchAgainst E (description (sr_item r)) t * 1))))"
proof (intro conjI allI impI)
  let ?q = "applyTermAndFilters E createQueryBuilder input"
  let ?page = "\<lambda>b. take (pageTake input) (drop (pageSkip input)
      (orderRows (sortKeys input) (selectedRows b ?q rows)))"
  from assms have ranks: "termRanks input = Some t" by (simp add: termRanks_def)
  have extra: "map_of (raw_extra r) ''score''
      = Some (scoreExpr E (b ''term'') (b ''like_term'') (raw_si r))"
    if "r \<in> set (?page b)" for r b
  proof -
    from that have "r \<in> set (selectedRows b ?q rows)" by (rule paged_member)
    then have "raw_extra r = map (\<lambda>(alias, e). (alias, e b (raw_si r))) (qb_selects ?q)"
      using selectedRows_member by blast
    then show ?thesis by (simp add: atf_selects ranks)
  qed
  show keys: "qb_orderBys (searchResultsQuery E input) =
             (''score'', DESC)
             # (case in_sort input of
                  Some s \<Rightarrow>
                    (case sort_name s of Some d \<Rightarrow> [(''productName'', d)] | None \<Rightarrow> [])
                    @ (case sort_price s of Some d \<Rightarrow> [(''price'', d)] | None \<Rightarrow> [])
                | None \<Rightarrow> [])"
    by (simp add: srq_orderBys sortKeys_def ranks)
  have sorted: "sorted_wrt (\<lambda>a b. \<not> rowBefore (qb_orderBys (searchResultsQuery E input)) b a)
      (?page b)" for b
    unfolding srq_orderBys by (intro sorted_wrt_take sorted_wrt_drop sorted_orderRows)
  have by_score: "sorted_wrt (\<lambda>a b. \<exists>x y. sr_score a = Some x \<and> sr_score b = Some y \<and> y \<le> x)
      (map (\<lambda>r. mapToSearchResult r (ctx_currencyCode ctx)) (?page b))" for b
  proof -
    have "sorted_wrt (\<lambda>a c. \<exists>x y. map_of (raw_extra a) ''score'' = Some x
            \<and> map_of (raw_extra c) ''score'' = Some y \<and> y \<le> x) (?page b)"
    proof (rule sorted_wrt_mono_rel [OF _ sorted])
      fix a c
      assume a: "a \<in> set (?page b)" and c: "c \<in> set (?page b)"
        and ord: "\<not> rowBefore (qb_orderBys (searchResultsQuery E input)) c a"
      from ord have "\<not> keyBefore (''score'', DESC) c a" by (simp add: keys)
      then have "rawScore c \<le> rawScore a" by (simp add: keyBefore_def)
      with extra [OF a] extra [OF c]
      show "\<exists>x y. map_of (raw_extra a) ''score'' = Some x
            \<and> map_of (raw_extra c) ''score'' = Some y \<and> y \<le> x"
        by (simp add: rawScore_def)
    qed
    then show ?thesis by (simp add: sorted_wrt_map mapToSearchResult_def)
  qed
  {
    fix raws
    assume "getRawMany E (searchResultsQuery E input) rows = Inr raws"
    then obtain b where "raws = ?page b"
      unfolding getRawMany_search by (blast dest: map_sum_Inr)
    with sorted [of b]
    show "sorted_wrt (\<lambda>a b. \<not> rowBefore (qb_orderBys (searchResultsQuery E input)) b a) raws"
      by simp
  }
  {
    fix rs
    assume "getSearchResults E ctx input rows = Inr rs"
    then obtain b where "rs = map (\<lambda>r. mapToSearchResult r (ctx_currencyCode ctx)) (?page b)"
      unfolding getSearchResults_bound by (blast dest: map_sum_Inr)
    with by_score [of b]
    show "sorted_wrt (\<lambda>a b. \<exists>x y. sr_score a = Some x \<and> sr_score b = Some y \<and> y \<le> x) rs"
      by simp
  }
  {
    assume "case in_facetIds input of Some ids \<Rightarrow> list_all plainName ids | None \<Rightarrow> True"
    then have plain: "plainFacetIds input" by (simp add: plainFacetIds_def)
    let ?b = "paramValue (queryParameters input)"
    have res: "getSearchResults E ctx input rows
        = Inr (map (\<lambda>r. mapToSearchResult r (ctx_currencyCode ctx)) (?page ?b))"
      by (simp add: getSearchResults_bound plain_binding [OF plain])
    have "\<forall>r\<in>set (map (\<lambda>r. mapToSearchResult r (ctx_currencyCode ctx)) (?page ?b)).
              sr_score r =
                Some ((if sqlLike E (sku (sr_item r)) (''%'' @ t @ ''%'') then 10 else 0)
                      + matchAgainst E (productName (sr_item r)) t * 2
                      + matchAgainst E (productVariantName (sr_item r)) t * (3 / 2)
                      + matchAgainst E (description (sr_item r)) t * 1)"
      using extra [of _ ?b] paramValue_term [OF ranks]
      by (auto simp: mapToSearchResult_def scoreExpr_def skuScoreExpr_def likeTerm_def)
    with res
    show "\<exists>rs. getSearchResults E ctx input rows = Inr rs
            \<and> (\<forall>r\<in>set rs.
                  sr_score r =
                    Some ((if sqlLike E (sku (sr_item r)) (''%'' @ t @ ''%'') then 10 else 0)
                          + matchAgainst E (productName (sr_item r)) t * 2
                          + matchAgainst E (productVariantName (sr_item r)) t * (3 / 2)
                          + matchAgainst E (description (sr_item r)) t * 1))"
      by blast
  }
qed

text \<open>
  The amended claim on the example store: the term \<open>shirt\<close> ranks the row whose SKU
  matches and whose name has the word (10 + 2 + 1.5) before the row whose name has the
  word only, and a requested name and price sort follow the score in the ORDER BY list.
\<close>

theorem ranking_score_and_order_witness:
  "qb_orderBys (searchResultsQuery wordEngine
        ((exampleInput (Some ''shirt''))\<lparr> in_sort := Some \<lparr> sort_name = Some ASC, sort_price = Some DESC \<rparr> \<rparr>))
     = [(''score'', DESC), (''productName'', ASC), (''price'', DESC)]
   \<and> map_sum id (map (\<lambda>r. (productVariantId (sr_item r), sr_score r)))
       (getSearchResults wordEngine exampleCtx (exampleInput (Some ''shirt'')) exampleRows)
     = Inr [(''v1'', Some (27 / 2)), (''v2'', Some (7 / 2))]
   \<and> (\<exists>rs. getSearchResults wordEngine exampleCtx (exampleInput (Some ''shirt'')) exampleRows
              = Inr rs
           \<and> (\<forall>r\<in>set rs.
                 sr_score r =
                   Some ((if sqlLike wordEngine (sku (sr_item r)) ''%shirt%'' then 10 else 0)
                         + matchAgainst wordEngine (productName (sr_item r)) ''shirt'' * 2
                         + matchAgainst wordEngine (productVariantName (sr_item r)) ''shirt''
                           * (3 / 2)
                         + matchAgainst wordEngine (description (sr_item r)) ''shirt'' * 1)))"
proof -
  let ?sorted = "(exampleInput (Some ''shirt''))\<lparr> in_sort := Some \<lparr> sort_name = Some ASC, sort_price = Some DESC \<rparr> \<rparr>"
  have t: "in_term ?sorted = Some ''shirt''" by (simp add: exampleInput_def)
  have t': "in_term (exampleInput (Some ''shirt'')) = Some ''shirt''"
    by (simp add: exampleInput_def)
  have len: "minTermLength < length ''shirt''" by (simp add: minTermLength_def)
  have plain: "case in_facetIds (exampleInput (Some ''shirt'')) of
                 Some ids \<Rightarrow> list_all plainName ids | None \<Rightarrow> True"
    by (simp add: exampleInput_def)
  have run: "map_sum id (map (\<lambda>r. (productVariantId (sr_item r), sr_score r)))
     (getSearchResults wordEngine exampleCtx (exampleInput (Some ''shirt'')) exampleRows)
   = Inr [(''v1'', Some (27 / 2)), (''v2'', Some (7 / 2))]"
    by (simp add: query_defs)
  note keys = conjunct1 [OF ranking_score_and_order [OF t len, of wordEngine exampleRows exampleCtx]]
  note scores = mp [OF conjunct2 [OF conjunct2 [OF conjunct2
      [OF ranking_score_and_order [OF t' len, of wordEngine exampleRows exampleCtx]]]] plain]
  from keys have "qb_orderBys (searchResultsQuery wordEngine ?sorted)
     = [(''score'', DESC), (''productName'', ASC), (''price'', DESC)]"
    by (simp add: exampleInput_def)
  moreover from scores
  have "\<exists>rs. getSearchResults wordEngine exampleCtx (exampleInput (Some ''shirt'')) exampleRows
              = Inr rs
           \<and> (\<forall>r\<in>set rs.
                 sr_score r =
                   Some ((if sqlLike wordEngine (sku (sr_item r)) ''%shirt%'' then 10 else 0)
                         + matchAgainst wordEngine (productName (sr_item r)) ''shirt'' * 2
                         + matchAgainst wordEngine (productVariantName (sr_item r)) ''shirt''
                           * (3 / 2)
                         + matchAgainst wordEngine (description (sr_item r)) ''shirt'' * 1))"
    by simp
  ultimately show ?thesis using run by blast
qed

text \<open>
  Claim C4 as stated fails: the term \<open>sh_rt\<close> ranks (it has five characters), the SKU
  \<open>RED-shirt-M\<close> does not contain it and no text of the row has it as a word, and the
  row is returned with the score 10, where the claim has the bonus 0 for it.
\<close>

theorem sku_bonus_wildcard_counterexample:
  "minTermLength < length ''sh_rt''
   \<and> \<not> containsTerm ''RED-shirt-M'' ''sh_rt''
   \<and> map_sum id (map (sku \<circ> sr_item))
       (getSearchResults wordEngine exampleCtx (exampleInput (Some ''sh_rt'')) exampleRows)
     = Inr [''RED-shirt-M'']
   \<and> map_sum id (map sr_score)
       (getSearchResults wordEngine exampleCtx (exampleInput (Some ''sh_rt'')) exampleRows)
     = Inr [Some 10]"
  by (simp add: query_defs)



text \<open>
  Claim C10. A \<open>take\<close> that is absent or 0 gives the page size 25, and the page then holds
  \<open>min 25 (total - skip)\<close> results; a \<open>skip\<close> that is absent or 0 gives the offset 0; and
  a search with \<open>take = 0\<close> returns what the same search without \<open>take\<close> returns.
\<close>

theorem zero_take_means_default_page:
  "(in_take input = None \<or> in_take input = Some 0 \<longrightarrow>
      qb_take (searchResultsQuery E input) = Some 25
      \<and> map_sum id length (getSearchResults E ctx input rows)
          = map_sum id
              (\<lambda>total. min 25 (total - (case in_skip input of Some n \<Rightarrow> n | None \<Rightarrow> 0)))
              (getTotalCount E ctx input rows))
   \<and> (in_skip input = None \<or> in_skip input = Some 0 \<longrightarrow>
      qb_skip (searchResultsQuery E input) = Some 0)
   \<and> (in_take input = Some 0 \<longrightarrow>
      getSearchResults E ctx input rows = getSearchResults E ctx (input\<lparr> in_take := None \<rparr>) rows)"
proof (intro conjI impI)
  assume h: "in_take input = None \<or> in_take input = Some 0"
  then have t: "pageTake input = 25" by (auto simp: pageTake_def)
  then show "qb_take (searchResultsQuery E input) = Some 25" by (simp add: srq_page)
  from t show "map_sum id length (getSearchResults E ctx input rows)
          = map_sum id
              (\<lambda>total. min 25 (total - (case in_skip input of Some n \<Rightarrow> n | None \<Rightarrow> 0)))
              (getTotalCount E ctx input rows)"
    using length_getSearchResults [of E ctx input rows] by (simp add: pageSkip_def)
next
  assume "in_skip input = None \<or> in_skip input = Some 0"
  then have "pageSkip input = 0" by (auto simp: pageSkip_def)
  then show "qb_skip (searchResultsQuery E input) = Some 0" by (simp add: srq_page)
next
  assume "in_take input = Some 0"
  then have "searchResultsQuery E (input\<lparr> in_take := None \<rparr>) = searchResultsQuery E input"
    by (simp add: searchResultsQuery_def applyTermAndFilters_def)
  then show "getSearchResults E ctx input rows
      = getSearchResults E ctx (input\<lparr> in_take := None \<rparr>) rows"
    by (simp add: getSearchResults_def)
qed

text \<open>On the example store, a search with \<open>take = 0\<close> returns all three rows.\<close>

theorem zero_take_means_default_page_witness:
  "qb_take (searchResultsQuery wordEngine ((exampleInput None)\<lparr> in_take := Some 0 \<rparr>)) = Some 25
   \<and> qb_skip (searchResultsQuery wordEngine ((exampleInput None)\<lparr> in_take := Some 0 \<rparr>)) = Some 0
   \<and> map_sum id length (getSearchResults wordEngine exampleCtx
        ((exampleInput None)\<lparr> in_take := Some 0 \<rparr>) exampleRows) = Inr 3"
proof -
  let ?zero = "(exampleInput None)\<lparr> in_take := Some 0 \<rparr>"
  have zero: "in_take ?zero = None \<or> in_take ?zero = Some 0" by simp
  have skip: "in_skip ?zero = None \<or> in_skip ?zero = Some 0" by (simp add: exampleInput_def)
  have count: "getTotalCount wordEngine exampleCtx ?zero exampleRows = Inr 3"
    by (simp add: query_defs)
  note page = zero_take_means_default_page [of ?zero wordEngine exampleCtx exampleRows]
  have a: "qb_take (searchResultsQuery wordEngine ?zero) = Some 25
      \<and> map_sum id length (getSearchResults wordEngine exampleCtx ?zero exampleRows)
          = map_sum id
              (\<lambda>total. min 25 (total - (case in_skip ?zero of Some n \<Rightarrow> n | None \<Rightarrow> 0)))
              (getTotalCount wordEngine exampleCtx ?zero exampleRows)"
    by (rule mp [OF conjunct1 [OF page] zero])
  have b: "qb_skip (searchResultsQuery wordEngine ?zero) = Some 0"
    by (rule mp [OF conjunct1 [OF conjunct2 [OF page]] skip])
  have "in_skip (exampleInput None) = None" by (simp add: exampleInput_def)
  with a [unfolded count] b show ?thesis by simp
qed

lemma term_threshold:
  "in_term input = Some t \<Longrightarrow>
   (minTermLength < length t \<longrightarrow>
      qb_selects (applyTermAndFilters E createQueryBuilder input)
        = [(''sku_score'', \<lambda>b. skuScoreExpr E (b ''like_term'')),
           (''score'', \<lambda>b. scoreExpr E (b ''term'') (b ''like_term''))]
      \<and> (\<lambda>b. termCond E (b ''term'') (b ''like_term''))
            \<in> set (qb_wheres (applyTermAndFilters E createQueryBuilder input))
      \<and> qb_orderBys (searchResultsQuery E input) \<noteq> []
      \<and> hd (qb_orderBys (searchResultsQuery E input)) = (''score'', DESC))
   \<and> (length t \<le> minTermLength \<longrightarrow>
      qb_selects (applyTermAndFilters E createQueryBuilder input) = []
      \<and> qb_wheres (applyTermAndFilters E createQueryBuilder input)
          = (\<lambda>b r. True)
            # (case in_facetIds input of
                 Some ids \<Rightarrow> map (\<lambda>i. findInSet (''_'' @ i)) ids | None \<Rightarrow> [])
      \<and> (''score'', DESC) \<notin> set (qb_orderBys (searchResultsQuery E input)))"
  by (auto simp: atf_selects atf_wheres srq_orderBys sortKeys_def termRanks_def
      split: option.splits)

text \<open>
  Claim C1, at a term of exactly two characters. The strategy names its threshold
  \<open>minTermLength = 2\<close> but tests \<open>term.length > minTermLength\<close>, so a two-character
  term is not a ranking term: on the example store the term \<open>sh\<close> matches the first row
  and not the third, yet the query carries no term condition, no score column and no
  ordering, and all three rows come back without a score.
\<close>

theorem two_character_term_is_not_ranked:
  "length ''sh'' = 2
   \<and> termCond wordEngine ''sh'' ''%sh%''
       (exampleItem ''v1'' ''p1'' ''RED-shirt-M'' ''red shirt'' [''A''])
   \<and> \<not> termCond wordEngine ''sh'' ''%sh%''
       (exampleItem ''v3'' ''p2'' ''H1'' ''hat'' [''A'', ''B''])
   \<and> map_sum id (map (\<lambda>r. (productVariantId (sr_item r), sr_score r)))
       (getSearchResults wordEngine exampleCtx (exampleInput (Some ''sh'')) exampleRows)
     = Inr [(''v1'', None), (''v2'', None), (''v3'', None)]
   \<and> qb_selects (applyTermAndFilters wordEngine createQueryBuilder (exampleInput (Some ''sh''))) = []
   \<and> length (qb_wheres
        (applyTermAndFilters wordEngine createQueryBuilder (exampleInput (Some ''sh'')))) = 1
   \<and> qb_orderBys (searchResultsQuery wordEngine (exampleInput (Some ''sh''))) = []"
  by (simp add: query_defs)

text \<open>
  The observable part of it: the three rows, unfiltered and unranked.
\<close>

theorem two_character_term_is_not_ranked_witness:
  "map_sum id (map (\<lambda>r. (productVariantId (sr_item r), sr_score r)))
     (getSearchResults wordEngine exampleCtx (exampleInput (Some ''sh'')) exampleRows)
   = Inr [(''v1'', None), (''v2'', None), (''v3'', None)]"
  by (rule conjunct1 [OF conjunct2 [OF conjunct2 [OF conjunct2
        [OF two_character_term_is_not_ranked]]]])

end
